theory Spec2Isabelle
  imports Complex_Main "HOL-Library.Sublist" "HOL-Library.Product_Lexorder"
begin

section \<open>The storefront schema of backend/ecommerce/schema.py\<close>

text \<open>
  The resolvers and mutations of the GraphQL schema are embedded as functions on an
  explicit database state. Every table is a list of rows in table order; a mutation takes
  the state and returns its result together with the state it leaves behind. The schema
  opens no transaction, so a mutation that raises returns the error together with
  whatever it had already saved.

  The model classes are imported by the schema from a module that is not part of the
  sources; the rows below carry exactly the fields the schema reads and writes.
\<close>

subsection \<open>Rows, errors and the database state\<close>

type_synonym user = nat

text \<open>\<open>info.context.user\<close>: \<open>None\<close> for an anonymous request.\<close>

type_synonym request_user = "user option"

datatype error =
    PermissionDenied
  | DoesNotExist
  | MultipleObjectsReturned
  | NegativeIndexing
  | IntegrityError
  | Exception string

record product =
  p_id :: nat
  p_name :: string
  p_kind :: string
  p_price :: int
  p_discount :: int
  p_stock :: int

record cart_obj =
  c_user :: user
  c_product :: nat
  c_qty :: int

record address =
  a_id :: nat
  a_user :: user
  a_name :: string
  a_phone :: string
  a_address1 :: string
  a_address2 :: string
  a_pincode :: int
  a_city :: string
  a_state :: string
  a_country :: string

record order_row =
  o_id :: nat
  o_user :: user
  o_name :: string
  o_phone :: string
  o_address1 :: string
  o_address2 :: string
  o_pincode :: int
  o_city :: string
  o_state :: string
  o_country :: string

record order_obj =
  oo_order :: nat
  oo_product :: nat
  oo_qty :: int
  oo_price :: int

text \<open>
  A \<open>datetime\<close> value. All timestamps are read in one time zone, the one in which the
  database renders the column as text.
\<close>

record datetime =
  year :: nat
  month :: nat
  day :: nat
  hour :: nat
  minute :: nat
  second :: nat
  microsecond :: nat

record appointment =
  ap_user :: user
  ap_timestamp :: datetime

text \<open>
  The mails handed to \<open>run_async\<close>: the confirmation to the user and the notice to the
  administrators, for an order (by order id) and for an appointment (by its time).
\<close>

datatype mail =
    OrderConfirmedMail nat user
  | OrderAdminMail nat
  | AppointmentConfirmedMail user datetime
  | AppointmentAdminMail user datetime

record state =
  products :: "product list"
  addresses :: "address list"
  cart :: "cart_obj list"
  orders :: "order_row list"
  order_objs :: "order_obj list"
  appointments :: "appointment list"
  outbox :: "mail list"

text \<open>The argument type \<open>ProductOrderInputType\<close>.\<close>

record product_order_input =
  product_id :: nat
  qty :: int

text \<open>\<open>@login_required\<close>: an anonymous request is refused before the body runs.\<close>

definition login_required ::
  "(user \<Rightarrow> state \<Rightarrow> (error + 'a) \<times> state) \<Rightarrow> request_user \<Rightarrow> state \<Rightarrow> (error + 'a) \<times> state" where
  "login_required body ctx s =
     (case ctx of None \<Rightarrow> (Inl PermissionDenied, s) | Some u \<Rightarrow> body u s)"

subsection \<open>The cart relation\<close>

text \<open>The rows of the cart table for one user and one product.\<close>

definition cart_lines :: "user \<Rightarrow> nat \<Rightarrow> state \<Rightarrow> cart_obj list" where
  "cart_lines u pid s = filter (\<lambda>c. c_user c = u \<and> c_product c = pid) (cart s)"

text \<open>\<open>CartObj.objects.filter(user=user)\<close>.\<close>

definition cart_of :: "user \<Rightarrow> state \<Rightarrow> cart_obj list" where
  "cart_of u s = filter (\<lambda>c. c_user c = u) (cart s)"

text \<open>\<open>CartObj.objects.get(user=user, product_id=...)\<close>: exactly one row, or an error.\<close>

definition CartObj_get :: "user \<Rightarrow> nat \<Rightarrow> state \<Rightarrow> error + cart_obj" where
  "CartObj_get u pid s =
     (case cart_lines u pid s of
        [] \<Rightarrow> Inl DoesNotExist
      | [c] \<Rightarrow> Inr c
      | _ \<Rightarrow> Inl MultipleObjectsReturned)"

text \<open>\<open>_cart_obj.save()\<close>: rewrite the row that was fetched.\<close>

definition cart_save :: "cart_obj \<Rightarrow> state \<Rightarrow> state" where
  "cart_save c s =
     s\<lparr>cart := map (\<lambda>r. if c_user r = c_user c \<and> c_product r = c_product c then c else r) (cart s)\<rparr>"

text \<open>\<open>user.cart.remove(product_id)\<close>: delete the rows relating the user to the product.\<close>

definition cart_remove :: "user \<Rightarrow> nat \<Rightarrow> state \<Rightarrow> state" where
  "cart_remove u pid s =
     s\<lparr>cart := filter (\<lambda>r. \<not> (c_user r = u \<and> c_product r = pid)) (cart s)\<rparr>"

text \<open>
  \<open>user.cart.add(product_id, through_defaults={"qty": qty})\<close>: a related manager inserts
  a row only for a product the user is not yet related to. The row points to the
  product by a foreign key (\<open>cart_obj.product\<close> in \<open>OrderCart.mutate\<close>), so the insert of
  a row for a product id that no product has is refused by the database: the call raises
  \<open>IntegrityError\<close> and stores nothing.
\<close>

definition cart_add :: "user \<Rightarrow> nat \<Rightarrow> int \<Rightarrow> state \<Rightarrow> error + state" where
  "cart_add u pid q s =
     (if cart_lines u pid s \<noteq> [] then Inr s
      else if find (\<lambda>p. p_id p = pid) (products s) = None then Inl IntegrityError
      else Inr (s\<lparr>cart := cart s @ [\<lparr>c_user = u, c_product = pid, c_qty = q\<rparr>]\<rparr>))"

text \<open>
  \<open>SetCart.mutate\<close>. The optional argument \<open>add\<close> is read with
  \<open>kwargs.get("add", False)\<close> and tested for truth, so only \<open>Some True\<close> adds.
  Only \<open>CartObj.DoesNotExist\<close> is caught: any other error, the one of \<open>user.cart.add\<close>
  too, leaves the mutation.
\<close>

definition SetCart_body ::
  "product_order_input \<Rightarrow> bool option \<Rightarrow> user \<Rightarrow> state \<Rightarrow> (error + cart_obj list) \<times> state" where
  "SetCart_body cart_obj add u s =
     (case CartObj_get u (product_id cart_obj) s of
        Inr c \<Rightarrow>
          (let s' =
             (if add = Some True then cart_save (c\<lparr>c_qty := c_qty c + qty cart_obj\<rparr>) s
              else if qty cart_obj > 0 then cart_save (c\<lparr>c_qty := qty cart_obj\<rparr>) s
              else cart_remove u (product_id cart_obj) s)
           in (Inr (cart_of u s'), s'))
      | Inl DoesNotExist \<Rightarrow>
          (if qty cart_obj > 0
           then (case cart_add u (product_id cart_obj) (qty cart_obj) s of
                   Inl e \<Rightarrow> (Inl e, s)
                 | Inr s' \<Rightarrow> (Inr (cart_of u s'), s'))
           else (Inr (cart_of u s), s))
      | Inl e \<Rightarrow> (Inl e, s))"

definition SetCart_mutate ::
  "request_user \<Rightarrow> product_order_input \<Rightarrow> bool option \<Rightarrow> state \<Rightarrow> (error + cart_obj list) \<times> state" where
  "SetCart_mutate ctx cart_obj add s = login_required (SetCart_body cart_obj add) ctx s"

subsection \<open>Products, addresses and orders\<close>

text \<open>\<open>Product.objects.get(pk=...)\<close> and the product a cart row points to.\<close>

definition Product_get :: "nat \<Rightarrow> state \<Rightarrow> error + product" where
  "Product_get pid s =
     (case find (\<lambda>p. p_id p = pid) (products s) of
        None \<Rightarrow> Inl DoesNotExist
      | Some p \<Rightarrow> Inr p)"

text \<open>\<open>product.save()\<close>: write the object back to the row with its primary key.\<close>

definition product_save :: "product \<Rightarrow> state \<Rightarrow> state" where
  "product_save p s =
     s\<lparr>products := map (\<lambda>r. if p_id r = p_id p then p else r) (products s)\<rparr>"

text \<open>\<open>Address.objects.get(pk=address_id)\<close>.\<close>

definition Address_get :: "nat \<Rightarrow> state \<Rightarrow> error + address" where
  "Address_get aid s =
     (case find (\<lambda>a. a_id a = aid) (addresses s) of
        None \<Rightarrow> Inl DoesNotExist
      | Some a \<Rightarrow> Inr a)"

text \<open>The primary key the database gives the next order: one past the largest in use.\<close>

definition next_order_id :: "state \<Rightarrow> nat" where
  "next_order_id s = Suc (foldr max (map o_id (orders s)) 0)"

text \<open>\<open>Order.objects.create(user=user, name=address.name, ...)\<close>: the address is copied.\<close>

definition Order_create :: "user \<Rightarrow> address \<Rightarrow> state \<Rightarrow> order_row \<times> state" where
  "Order_create u a s =
     (let order = \<lparr>o_id = next_order_id s, o_user = u, o_name = a_name a, o_phone = a_phone a,
                   o_address1 = a_address1 a, o_address2 = a_address2 a,
                   o_pincode = a_pincode a, o_city = a_city a, o_state = a_state a,
                   o_country = a_country a\<rparr>
      in (order, s\<lparr>orders := orders s @ [order]\<rparr>))"

text \<open>
  \<open>order.product_objects.add(product.id, through_defaults={"qty": ..., "price": ...})\<close>:
  as for the cart, a row is inserted only when the order is not yet related to the
  product.
\<close>

definition product_objects_add :: "nat \<Rightarrow> nat \<Rightarrow> int \<Rightarrow> int \<Rightarrow> state \<Rightarrow> state" where
  "product_objects_add oid pid q pr s =
     (if filter (\<lambda>l. oo_order l = oid \<and> oo_product l = pid) (order_objs s) = []
      then s\<lparr>order_objs := order_objs s @
                [\<lparr>oo_order = oid, oo_product = pid, oo_qty = q, oo_price = pr\<rparr>]\<rparr>
      else s)"

text \<open>
  \<open>math.ceil(product.price - (product.discount * product.price) / 100)\<close>.
  The product of the two integers is exact; \<open>/\<close> is Python's true division, which
  rounds the quotient to a float; the subtraction converts the integer price to a float
  and rounds the difference. The rounding to the nearest float is the parameter \<open>fl\<close>.
\<close>

definition order_price :: "(real \<Rightarrow> real) \<Rightarrow> product \<Rightarrow> int" where
  "order_price fl p =
     \<lceil>fl (fl (of_int (p_price p)) - fl (of_int (p_discount p * p_price p) / 100))\<rceil>"

text \<open>
  What the theorems assume of the rounding: on the range used here the result is within
  one part in \<open>2 ^ 53\<close> of the exact value, and an integer of at most 53 bits is
  represented exactly. Rounding to the nearest IEEE 754 double has both properties.
\<close>

definition binary64_rounding :: "(real \<Rightarrow> real) \<Rightarrow> bool" where
  "binary64_rounding fl \<longleftrightarrow>
     (\<forall>x. 1 / 1024 \<le> \<bar>x\<bar> \<and> \<bar>x\<bar> \<le> 2 ^ 60 \<longrightarrow> \<bar>fl x - x\<bar> \<le> \<bar>x\<bar> / 2 ^ 53)
     \<and> (\<forall>n::int. \<bar>n\<bar> \<le> 2 ^ 53 \<longrightarrow> fl (of_int n) = of_int n)"

text \<open>\<open>cart_obj.delete()\<close>: the row that was read leaves the table.\<close>

definition cart_obj_delete :: "cart_obj \<Rightarrow> state \<Rightarrow> state" where
  "cart_obj_delete c s = s\<lparr>cart := remove1 c (cart s)\<rparr>"

text \<open>
  One round of the loop of \<open>OrderCart.mutate\<close> after the stock test has passed: the stock
  is decremented and saved, the order line is added, the cart row is deleted.
\<close>

definition commit_line :: "(real \<Rightarrow> real) \<Rightarrow> order_row \<Rightarrow> cart_obj \<Rightarrow> product \<Rightarrow> state \<Rightarrow> state" where
  "commit_line fl order c product s =
     (let product' = product\<lparr>p_stock := p_stock product - c_qty c\<rparr>
      in cart_obj_delete c
           (product_objects_add (o_id order) (p_id product') (c_qty c) (order_price fl product')
              (product_save product' s)))"

text \<open>
  The loop \<open>for cart_obj in cart\<close> of \<open>OrderCart.mutate\<close>, over the rows read when the
  loop starts. A raise leaves the loop with the state reached so far.
\<close>

fun OrderCart_loop ::
  "(real \<Rightarrow> real) \<Rightarrow> order_row \<Rightarrow> cart_obj list \<Rightarrow> state \<Rightarrow> error option \<times> state" where
  "OrderCart_loop fl order [] s = (None, s)"
| "OrderCart_loop fl order (c # cs) s =
     (case Product_get (c_product c) s of
        Inl e \<Rightarrow> (Some e, s)
      | Inr product \<Rightarrow>
          if p_stock product < c_qty c then (Some (Exception ''Stock Error''), s)
          else OrderCart_loop fl order cs (commit_line fl order c product s))"

text \<open>The two mails sent once an order is complete.\<close>

definition order_mails :: "order_row \<Rightarrow> user \<Rightarrow> state \<Rightarrow> state" where
  "order_mails order u s =
     s\<lparr>outbox := outbox s @ [OrderConfirmedMail (o_id order) u, OrderAdminMail (o_id order)]\<rparr>"

text \<open>\<open>OrderCart.mutate\<close>.\<close>

definition OrderCart_body ::
  "(real \<Rightarrow> real) \<Rightarrow> nat \<Rightarrow> user \<Rightarrow> state \<Rightarrow> (error + order_row) \<times> state" where
  "OrderCart_body fl address_id u s =
     (case Address_get address_id s of
        Inl e \<Rightarrow> (Inl e, s)
      | Inr address \<Rightarrow>
          (case Order_create u address s of
             (order, s1) \<Rightarrow>
               (case OrderCart_loop fl order (cart_of u s1) s1 of
                  (Some e, s2) \<Rightarrow> (Inl e, s2)
                | (None, s2) \<Rightarrow> (Inr order, order_mails order u s2))))"

definition OrderCart_mutate ::
  "(real \<Rightarrow> real) \<Rightarrow> request_user \<Rightarrow> nat \<Rightarrow> state \<Rightarrow> (error + order_row) \<times> state" where
  "OrderCart_mutate fl ctx address_id s = login_required (OrderCart_body fl address_id) ctx s"

text \<open>\<open>OrderProduct.mutate\<close>.\<close>

definition OrderProduct_body ::
  "(real \<Rightarrow> real) \<Rightarrow> product_order_input \<Rightarrow> nat \<Rightarrow> user \<Rightarrow> state \<Rightarrow> (error + order_row) \<times> state" where
  "OrderProduct_body fl product_obj address_id u s =
     (case Address_get address_id s of
        Inl e \<Rightarrow> (Inl e, s)
      | Inr address \<Rightarrow>
          (case Order_create u address s of
             (order, s1) \<Rightarrow>
               (case Product_get (product_id product_obj) s1 of
                  Inl e \<Rightarrow> (Inl e, s1)
                | Inr product \<Rightarrow>
                    if p_stock product < qty product_obj
                    then (Inl (Exception ''Stock Error''), s1)
                    else
                      (let product' = product\<lparr>p_stock := p_stock product - qty product_obj\<rparr>;
                           s2 = product_objects_add (o_id order) (p_id product')
                                  (qty product_obj) (order_price fl product')
                                  (product_save product' s1)
                       in (Inr order, order_mails order u s2)))))"

definition OrderProduct_mutate ::
  "(real \<Rightarrow> real) \<Rightarrow> request_user \<Rightarrow> product_order_input \<Rightarrow> nat \<Rightarrow> state
     \<Rightarrow> (error + order_row) \<times> state" where
  "OrderProduct_mutate fl ctx product_obj address_id s =
     login_required (OrderProduct_body fl product_obj address_id) ctx s"

subsection \<open>Appointments\<close>

text \<open>A \<open>date\<close> value: year, month, day.\<close>

type_synonym date = "nat \<times> nat \<times> nat"

text \<open>\<open>timestamp.date()\<close>.\<close>

definition datetime_date :: "datetime \<Rightarrow> date" where
  "datetime_date dt = (year dt, month dt, day dt)"


text \<open>Decimal digits, and numbers padded with zeros to a fixed width.\<close>

definition digit_char :: "nat \<Rightarrow> char" where
  "digit_char n = ''0123456789'' ! (n mod 10)"

definition pad2 :: "nat \<Rightarrow> string" where
  "pad2 n = [digit_char (n div 10), digit_char n]"

definition pad4 :: "nat \<Rightarrow> string" where
  "pad4 n = [digit_char (n div 1000), digit_char (n div 100), digit_char (n div 10), digit_char n]"

definition pad6 :: "nat \<Rightarrow> string" where
  "pad6 n = [digit_char (n div 100000), digit_char (n div 10000)] @ pad4 n"

text \<open>\<open>str(date)\<close>, the ISO form \<open>YYYY-MM-DD\<close>.\<close>

definition date_str :: "date \<Rightarrow> string" where
  "date_str d = (case d of (y, m, dd) \<Rightarrow> pad4 y @ ''-'' @ pad2 m @ ''-'' @ pad2 dd)"

text \<open>
  The timestamp column as the database renders it for a text comparison:
  \<open>YYYY-MM-DD HH:MM:SS\<close>, followed by the fraction of a second when there is one.
\<close>

definition timestamp_text :: "datetime \<Rightarrow> string" where
  "timestamp_text dt =
     date_str (datetime_date dt) @ '' '' @ pad2 (hour dt) @ '':'' @ pad2 (minute dt) @ '':''
       @ pad2 (second dt)
       @ (if microsecond dt = 0 then [] else ''.'' @ pad6 (microsecond dt))"

text \<open>
  \<open>Appointment.objects.filter(timestamp__startswith=timestamp.date())\<close>: the rows whose
  rendered timestamp starts with the rendered date.
\<close>

definition appointments_startswith :: "date \<Rightarrow> state \<Rightarrow> appointment list" where
  "appointments_startswith d s =
     filter (\<lambda>a. prefix (date_str d) (timestamp_text (ap_timestamp a))) (appointments s)"

text \<open>
  \<open>BookAppointment.mutate\<close>. The formatting of the time for the mail text raises
  nothing and stores nothing; the mails carry the timestamp.
\<close>

definition BookAppointment_body ::
  "datetime \<Rightarrow> user \<Rightarrow> state \<Rightarrow> (error + appointment) \<times> state" where
  "BookAppointment_body timestamp u s =
     (if length (appointments_startswith (datetime_date timestamp) s) > 0
      then (Inl (Exception ''No slot on that day!''), s)
      else
        (let new_appoint = \<lparr>ap_user = u, ap_timestamp = timestamp\<rparr>
         in (Inr new_appoint,
             s\<lparr>appointments := appointments s @ [new_appoint],
               outbox := outbox s @
                 [AppointmentConfirmedMail u timestamp, AppointmentAdminMail u timestamp]\<rparr>)))"

definition BookAppointment_mutate ::
  "request_user \<Rightarrow> datetime \<Rightarrow> state \<Rightarrow> (error + appointment) \<times> state" where
  "BookAppointment_mutate ctx timestamp s = login_required (BookAppointment_body timestamp) ctx s"



subsection \<open>The product list\<close>

text \<open>Lower case of the letters A to Z, for the case-insensitive match.\<close>

definition lower_char :: "char \<Rightarrow> char" where
  "lower_char c =
     (case map_of (zip ''ABCDEFGHIJKLMNOPQRSTUVWXYZ'' ''abcdefghijklmnopqrstuvwxyz'') c of
        Some l \<Rightarrow> l
      | None \<Rightarrow> c)"

text \<open>\<open>name__icontains=search\<close>.\<close>

definition icontains :: "string \<Rightarrow> string \<Rightarrow> bool" where
  "icontains name search \<longleftrightarrow> sublist (map lower_char search) (map lower_char name)"

text \<open>
  \<open>qs[skip:]\<close> and \<open>qs[:first]\<close> on a query set: a negative bound raises.
\<close>

definition slice_from :: "int \<Rightarrow> 'a list \<Rightarrow> error + 'a list" where
  "slice_from n qs = (if n < 0 then Inl NegativeIndexing else Inr (drop (nat n) qs))"

definition slice_to :: "int \<Rightarrow> 'a list \<Rightarrow> error + 'a list" where
  "slice_to n qs = (if n < 0 then Inl NegativeIndexing else Inr (take (nat n) qs))"

text \<open>
  \<open>Query.resolve_products\<close>. Every argument is optional and is tested for truth:
  an absent argument, an empty string and the number 0 all skip their step.
\<close>

definition resolve_products ::
  "int option \<Rightarrow> int option \<Rightarrow> string option \<Rightarrow> string option \<Rightarrow> state
     \<Rightarrow> error + product list" where
  "resolve_products first skip search kind s =
     (let qs = products s;
          qs = (case search of
                  Some t \<Rightarrow> if t \<noteq> [] then filter (\<lambda>p. icontains (p_name p) t) qs else qs
                | None \<Rightarrow> qs);
          qs = (case kind of
                  Some k \<Rightarrow> if k \<noteq> [] then filter (\<lambda>p. p_kind p = k) qs else qs
                | None \<Rightarrow> qs)
      in case (case skip of
                 Some n \<Rightarrow> if n \<noteq> 0 then slice_from n qs else Inr qs
               | None \<Rightarrow> Inr qs) of
           Inl e \<Rightarrow> Inl e
         | Inr qs \<Rightarrow>
             (case first of
                Some n \<Rightarrow> if n \<noteq> 0 then slice_to n qs else Inr qs
              | None \<Rightarrow> Inr qs))"

text \<open>
  The product list as the specification words it: each filter applies when its argument
  is given, then the first \<open>skip\<close> matches are dropped, then at most \<open>first\<close> are kept.
\<close>

definition listProducts_spec ::
  "int option \<Rightarrow> int option \<Rightarrow> string option \<Rightarrow> string option \<Rightarrow> product list \<Rightarrow> product list" where
  "listProducts_spec first skip search kind ps =
     (let qs = (case search of Some t \<Rightarrow> filter (\<lambda>p. icontains (p_name p) t) ps | None \<Rightarrow> ps);
          qs = (case kind of Some k \<Rightarrow> filter (\<lambda>p. p_kind p = k) qs | None \<Rightarrow> qs);
          qs = (case skip of Some n \<Rightarrow> drop (nat n) qs | None \<Rightarrow> qs)
      in (case first of Some n \<Rightarrow> take (nat n) qs | None \<Rightarrow> qs))"

subsection \<open>Sequences of requests\<close>

datatype request =
    SetCartReq request_user product_order_input "bool option"
  | OrderCartReq request_user nat
  | OrderProductReq request_user product_order_input nat
  | BookAppointmentReq request_user datetime

text \<open>The state a request leaves behind, whether it returns or raises.\<close>

fun exec :: "(real \<Rightarrow> real) \<Rightarrow> request \<Rightarrow> state \<Rightarrow> state" where
  "exec fl (SetCartReq ctx cart_obj add) s = snd (SetCart_mutate ctx cart_obj add s)"
| "exec fl (OrderCartReq ctx address_id) s = snd (OrderCart_mutate fl ctx address_id s)"
| "exec fl (OrderProductReq ctx product_obj address_id) s =
     snd (OrderProduct_mutate fl ctx product_obj address_id s)"
| "exec fl (BookAppointmentReq ctx timestamp) s = snd (BookAppointment_mutate ctx timestamp s)"

definition run :: "(real \<Rightarrow> real) \<Rightarrow> request list \<Rightarrow> state \<Rightarrow> state" where
  "run fl reqs s = fold (exec fl) reqs s"

text \<open>No product is out of stock below zero.\<close>

definition stock_nonneg :: "state \<Rightarrow> bool" where
  "stock_nonneg s \<longleftrightarrow> list_all (\<lambda>p. 0 \<le> p_stock p) (products s)"



text \<open>The quantity a list of cart rows asks of one product.\<close>

definition lines_qty :: "nat \<Rightarrow> cart_obj list \<Rightarrow> int" where
  "lines_qty pid cs = sum_list (map c_qty (filter (\<lambda>c. c_product c = pid) cs))"

text \<open>
  Every order line belongs to a stored order: the foreign key of the table between
  orders and products.
\<close>

definition order_objs_wf :: "state \<Rightarrow> bool" where
  "order_objs_wf s \<longleftrightarrow> list_all (\<lambda>l. oo_order l \<in> set (map o_id (orders s))) (order_objs s)"

text \<open>
  The order line that committing the cart row \<open>c\<close> to the order adds: the order, the
  product of the row, the quantity of the row, and the price computed from the product
  as the state has it.
\<close>

definition order_line_of :: "(real \<Rightarrow> real) \<Rightarrow> order_row \<Rightarrow> state \<Rightarrow> cart_obj \<Rightarrow> order_obj list" where
  "order_line_of fl order s c =
     (case Product_get (c_product c) s of
        Inl e \<Rightarrow> []
      | Inr p \<Rightarrow> [\<lparr>oo_order = o_id order, oo_product = c_product c, oo_qty = c_qty c,
                   oo_price = order_price fl p\<rparr>])"

text \<open>The cart table holds one row at most for a user and a product.\<close>

definition cart_unique :: "state \<Rightarrow> bool" where
  "cart_unique s \<longleftrightarrow> distinct (map (\<lambda>c. (c_user c, c_product c)) (cart s))"

subsection \<open>Example states\<close>

text \<open>Products 7 and 8 are on sale; user 1 holds two units of product 7 in the cart.\<close>

definition cart_example :: state where
  "cart_example =
     \<lparr>products =
        [\<lparr>p_id = 7, p_name = ''Lamp'', p_kind = ''light'', p_price = 40, p_discount = 0,
          p_stock = 9\<rparr>,
         \<lparr>p_id = 8, p_name = ''Desk'', p_kind = ''wood'', p_price = 250, p_discount = 5,
          p_stock = 4\<rparr>],
      addresses = [],
      cart = [\<lparr>c_user = 1, c_product = 7, c_qty = 2\<rparr>],
      orders = [], order_objs = [], appointments = [], outbox = []\<rparr>"

text \<open>The same, when user 2 holds one unit of product 7 as well.\<close>

definition two_carts_example :: state where
  "two_carts_example =
     cart_example\<lparr>cart := [\<lparr>c_user = 1, c_product = 7, c_qty = 2\<rparr>,
                            \<lparr>c_user = 2, c_product = 7, c_qty = 1\<rparr>]\<rparr>"

text \<open>
  A shop with two products and one address. User 1 holds two units of product 1 (in
  stock: 5) and three units of product 2 (in stock: 1).
\<close>

definition shop_example :: state where
  "shop_example =
     \<lparr>products =
        [\<lparr>p_id = 1, p_name = ''Red Shoe'', p_kind = ''shoe'', p_price = 100, p_discount = 10,
          p_stock = 5\<rparr>,
         \<lparr>p_id = 2, p_name = ''Blue Hat'', p_kind = ''hat'', p_price = 99, p_discount = 15,
          p_stock = 1\<rparr>],
      addresses =
        [\<lparr>a_id = 1, a_user = 1, a_name = ''A'', a_phone = ''1'', a_address1 = ''x'',
          a_address2 = ''y'', a_pincode = 1, a_city = ''c'', a_state = ''s'', a_country = ''n''\<rparr>],
      cart = [\<lparr>c_user = 1, c_product = 1, c_qty = 2\<rparr>, \<lparr>c_user = 1, c_product = 2, c_qty = 3\<rparr>],
      orders = [], order_objs = [], appointments = [], outbox = []\<rparr>"





text \<open>
  The shop after user 1 tried to order the cart: the first line is committed, the second
  one was refused.
\<close>

definition shop_after_refusal :: state where
  "shop_after_refusal =
     shop_example
       \<lparr>products :=
          [\<lparr>p_id = 1, p_name = ''Red Shoe'', p_kind = ''shoe'', p_price = 100, p_discount = 10,
            p_stock = 3\<rparr>,
           \<lparr>p_id = 2, p_name = ''Blue Hat'', p_kind = ''hat'', p_price = 99, p_discount = 15,
            p_stock = 1\<rparr>],
        cart := [\<lparr>c_user = 1, c_product = 2, c_qty = 3\<rparr>],
        orders := [\<lparr>o_id = 1, o_user = 1, o_name = ''A'', o_phone = ''1'', o_address1 = ''x'',
           o_address2 = ''y'', o_pincode = 1, o_city = ''c'', o_state = ''s'', o_country = ''n''\<rparr>],
        order_objs := [\<lparr>oo_order = 1, oo_product = 1, oo_qty = 2, oo_price = 90\<rparr>]\<rparr>"

text \<open>The same shop when the cart of user 1 holds the first line only.\<close>

definition small_cart_example :: state where
  "small_cart_example = shop_example\<lparr>cart := [\<lparr>c_user = 1, c_product = 1, c_qty = 2\<rparr>]\<rparr>"

section \<open>Properties\<close>

subsection \<open>Cart lines\<close>

lemma filter_map_single:
  assumes "filter P xs = [c]" and "P c'"
  shows "filter P (map (\<lambda>r. if P r then c' else r) xs) = [c']"
  using assms by (induction xs) (auto split: if_splits simp: filter_empty_conv)

lemma filter_map_other:
  "\<not> P c' \<Longrightarrow> (\<And>r. Q r \<Longrightarrow> \<not> P r) \<Longrightarrow>
   filter P (map (\<lambda>r. if Q r then c' else r) xs) = filter P xs"
  by (induction xs) auto

lemma cart_lines_member:
  assumes "cart_lines u pid s = [c]"
  shows "c_user c = u \<and> c_product c = pid"
proof -
  from assms have "c \<in> set (filter (\<lambda>c. c_user c = u \<and> c_product c = pid) (cart s))"
    by (simp add: cart_lines_def)
  then show ?thesis by simp
qed

lemma cart_lines_save_qty:
  assumes "cart_lines u pid s = [c]"
  shows "cart_lines u pid (cart_save (c\<lparr>c_qty := x\<rparr>) s) = [c\<lparr>c_qty := x\<rparr>]"
proof -
  from assms have m: "c_user c = u" "c_product c = pid"
    using cart_lines_member by blast+
  from assms have "filter (\<lambda>r. c_user r = u \<and> c_product r = pid) (cart s) = [c]"
    by (simp add: cart_lines_def)
  then have "filter (\<lambda>r. c_user r = u \<and> c_product r = pid)
      (map (\<lambda>r. if c_user r = u \<and> c_product r = pid then c\<lparr>c_qty := x\<rparr> else r) (cart s))
      = [c\<lparr>c_qty := x\<rparr>]"
    by (rule filter_map_single) (simp add: m)
  then show ?thesis by (simp add: cart_lines_def cart_save_def m)
qed

lemma cart_lines_save_other:
  "(u', pid') \<noteq> (c_user c', c_product c') \<Longrightarrow>
   cart_lines u' pid' (cart_save c' s) = cart_lines u' pid' s"
  unfolding cart_lines_def cart_save_def
  by (simp, rule filter_map_other) auto

lemma cart_lines_remove:
  "cart_lines u' pid' (cart_remove u pid s) =
     (if (u', pid') = (u, pid) then [] else cart_lines u' pid' s)"
  unfolding cart_lines_def cart_remove_def
  by (auto simp: filter_empty_conv intro!: filter_cong)

lemma cart_add_row:
  "cart_lines u pid s = [] \<Longrightarrow> Product_get pid s = Inr p \<Longrightarrow>
   cart_add u pid q s = Inr (s\<lparr>cart := cart s @ [\<lparr>c_user = u, c_product = pid, c_qty = q\<rparr>]\<rparr>)"
  by (simp add: cart_add_def Product_get_def split: option.splits)

lemma cart_add_refused:
  "cart_lines u pid s = [] \<Longrightarrow> Product_get pid s = Inl DoesNotExist \<Longrightarrow>
   cart_add u pid q s = Inl IntegrityError"
  by (simp add: cart_add_def Product_get_def split: option.splits)

lemma cart_lines_append:
  "cart_lines u' pid' (s\<lparr>cart := cart s @ [\<lparr>c_user = u, c_product = pid, c_qty = q\<rparr>]\<rparr>) =
     cart_lines u' pid' s @ (if (u', pid') = (u, pid) then [\<lparr>c_user = u, c_product = pid, c_qty = q\<rparr>]
      else [])"
  unfolding cart_lines_def by auto

lemma CartObj_get_single: "cart_lines u pid s = [c] \<Longrightarrow> CartObj_get u pid s = Inr c"
  by (simp add: CartObj_get_def)

lemma CartObj_get_none: "cart_lines u pid s = [] \<Longrightarrow> CartObj_get u pid s = Inl DoesNotExist"
  by (simp add: CartObj_get_def)

text \<open>
  Claim C5. For an authenticated user \<open>u\<close>, a product and an integer \<open>qty\<close>:
  when the cart holds the line \<open>c\<close> for (user, product), \<open>add = true\<close> leaves the line with
  the prior quantity plus \<open>qty\<close>; without \<open>add\<close> a positive \<open>qty\<close> replaces the quantity
  and a \<open>qty\<close> of zero or below deletes the line. When the cart holds no such line, a
  positive \<open>qty\<close> creates the line of the product \<open>p\<close> with that quantity and any other
  \<open>qty\<close> leaves the state as it was. In every one of these cases the mutation returns
  the rows of the cart table that belong to \<open>u\<close>, all of them and no row of another user,
  as the table then stands, and the lines of every other (user, product) pair are
  untouched. A product id that no product has is no product: a positive \<open>qty\<close> for it
  raises the integrity error of the database and stores nothing.
\<close>

theorem SetCart_semantics:
  fixes s :: state and u :: user and inp :: product_order_input and add :: "bool option"
  defines "pid \<equiv> product_id inp" and "q \<equiv> qty inp"
  defines "r \<equiv> SetCart_mutate (Some u) inp add s"
  shows "(cart_lines u pid s = [c] \<and> add = Some True \<longrightarrow>
            cart_lines u pid (snd r) = [c\<lparr>c_qty := c_qty c + q\<rparr>])
       \<and> (cart_lines u pid s = [c] \<and> add \<noteq> Some True \<and> q > 0 \<longrightarrow>
            cart_lines u pid (snd r) = [c\<lparr>c_qty := q\<rparr>])
       \<and> (cart_lines u pid s = [c] \<and> add \<noteq> Some True \<and> q \<le> 0 \<longrightarrow>
            cart_lines u pid (snd r) = [])
       \<and> (cart_lines u pid s = [] \<and> q > 0 \<and> Product_get pid s = Inr p \<longrightarrow>
            cart_lines u pid (snd r) = [\<lparr>c_user = u, c_product = pid, c_qty = q\<rparr>])
       \<and> (cart_lines u pid s = [] \<and> q \<le> 0 \<longrightarrow> snd r = s)
       \<and> (cart_lines u pid s = [c]
            \<or> cart_lines u pid s = [] \<and> (q \<le> 0 \<or> Product_get pid s = Inr p) \<longrightarrow>
            fst r = Inr (filter (\<lambda>l. c_user l = u) (cart (snd r)))
            \<and> (\<forall>u' pid'. (u', pid') \<noteq> (u, pid) \<longrightarrow>
                  cart_lines u' pid' (snd r) = cart_lines u' pid' s))
       \<and> (cart_lines u pid s = [] \<and> q > 0 \<and> Product_get pid s = Inl DoesNotExist \<longrightarrow>
            r = (Inl IntegrityError, s))"
  unfolding r_def pid_def q_def SetCart_mutate_def login_required_def SetCart_body_def
  by (auto simp: CartObj_get_single CartObj_get_none cart_lines_save_qty cart_lines_save_other
      cart_lines_remove cart_add_row cart_add_refused cart_lines_append cart_of_def Let_def
      dest: cart_lines_member)

theorem SetCart_semantics_witness:
  "cart_lines 1 7 (snd (SetCart_mutate (Some 1) \<lparr>product_id = 7, qty = 3\<rparr> (Some True) two_carts_example))
     = [\<lparr>c_user = 1, c_product = 7, c_qty = 5\<rparr>]
   \<and> cart_lines 1 7 (snd (SetCart_mutate (Some 1) \<lparr>product_id = 7, qty = 3\<rparr> None two_carts_example))
     = [\<lparr>c_user = 1, c_product = 7, c_qty = 3\<rparr>]
   \<and> cart_lines 1 7 (snd (SetCart_mutate (Some 1) \<lparr>product_id = 7, qty = 0\<rparr> (Some False) two_carts_example))
     = []
   \<and> cart_lines 2 7 (snd (SetCart_mutate (Some 1) \<lparr>product_id = 7, qty = 0\<rparr> (Some False) two_carts_example))
     = [\<lparr>c_user = 2, c_product = 7, c_qty = 1\<rparr>]
   \<and> cart_lines 1 8 (snd (SetCart_mutate (Some 1) \<lparr>product_id = 8, qty = 4\<rparr> None two_carts_example))
     = [\<lparr>c_user = 1, c_product = 8, c_qty = 4\<rparr>]
   \<and> snd (SetCart_mutate (Some 1) \<lparr>product_id = 8, qty = 0\<rparr> None two_carts_example)
     = two_carts_example
   \<and> cart (snd (SetCart_mutate (Some 1) \<lparr>product_id = 8, qty = 4\<rparr> None two_carts_example))
     = [\<lparr>c_user = 1, c_product = 7, c_qty = 2\<rparr>, \<lparr>c_user = 2, c_product = 7, c_qty = 1\<rparr>,
        \<lparr>c_user = 1, c_product = 8, c_qty = 4\<rparr>]
   \<and> fst (SetCart_mutate (Some 1) \<lparr>product_id = 8, qty = 4\<rparr> None two_carts_example)
     = Inr [\<lparr>c_user = 1, c_product = 7, c_qty = 2\<rparr>, \<lparr>c_user = 1, c_product = 8, c_qty = 4\<rparr>]
   \<and> SetCart_mutate (Some 1) \<lparr>product_id = 9, qty = 4\<rparr> None two_carts_example
     = (Inl IntegrityError, two_carts_example)"
proof -
  let ?c = "\<lparr>c_user = 1, c_product = 7, c_qty = 2\<rparr>"
  let ?p8 = "\<lparr>p_id = 8, p_name = ''Desk'', p_kind = ''wood'', p_price = 250, p_discount = 5,
          p_stock = 4\<rparr>"
  have l7: "cart_lines 1 7 two_carts_example = [?c]"
    and l8: "cart_lines 1 8 two_carts_example = []"
    and l9: "cart_lines 1 9 two_carts_example = []"
    and l27: "cart_lines 2 7 two_carts_example = [\<lparr>c_user = 2, c_product = 7, c_qty = 1\<rparr>]"
    by (simp_all add: cart_lines_def two_carts_example_def cart_example_def)
  have p8: "Product_get 8 two_carts_example = Inr ?p8"
    and p9: "Product_get 9 two_carts_example = Inl DoesNotExist"
    by (simp_all add: Product_get_def two_carts_example_def cart_example_def)
  have a: "cart_lines 1 7 (snd (SetCart_mutate (Some 1) \<lparr>product_id = 7, qty = 3\<rparr> (Some True) two_carts_example))
      = [\<lparr>c_user = 1, c_product = 7, c_qty = 5\<rparr>]"
    using SetCart_semantics [of 1 "\<lparr>product_id = 7, qty = 3\<rparr>" two_carts_example ?c "Some True" ?p8] l7
    by simp
  have b: "cart_lines 1 7 (snd (SetCart_mutate (Some 1) \<lparr>product_id = 7, qty = 3\<rparr> None two_carts_example))
      = [\<lparr>c_user = 1, c_product = 7, c_qty = 3\<rparr>]"
    using SetCart_semantics [of 1 "\<lparr>product_id = 7, qty = 3\<rparr>" two_carts_example ?c None ?p8] l7
    by simp
  have c: "cart_lines 1 7 (snd (SetCart_mutate (Some 1) \<lparr>product_id = 7, qty = 0\<rparr> (Some False) two_carts_example))
      = []
    \<and> cart_lines 2 7 (snd (SetCart_mutate (Some 1) \<lparr>product_id = 7, qty = 0\<rparr> (Some False) two_carts_example))
      = [\<lparr>c_user = 2, c_product = 7, c_qty = 1\<rparr>]"
    using SetCart_semantics [of 1 "\<lparr>product_id = 7, qty = 0\<rparr>" two_carts_example ?c "Some False" ?p8]
      l7 l27
    by simp
  have d: "cart_lines 1 8 (snd (SetCart_mutate (Some 1) \<lparr>product_id = 8, qty = 4\<rparr> None two_carts_example))
      = [\<lparr>c_user = 1, c_product = 8, c_qty = 4\<rparr>]"
    using SetCart_semantics [of 1 "\<lparr>product_id = 8, qty = 4\<rparr>" two_carts_example ?c None ?p8] l8 p8
    by simp
  have e: "snd (SetCart_mutate (Some 1) \<lparr>product_id = 8, qty = 0\<rparr> None two_carts_example)
      = two_carts_example"
    using SetCart_semantics [of 1 "\<lparr>product_id = 8, qty = 0\<rparr>" two_carts_example ?c None ?p8] l8
    by simp
  have t: "cart (snd (SetCart_mutate (Some 1) \<lparr>product_id = 8, qty = 4\<rparr> None two_carts_example))
      = [\<lparr>c_user = 1, c_product = 7, c_qty = 2\<rparr>, \<lparr>c_user = 2, c_product = 7, c_qty = 1\<rparr>,
         \<lparr>c_user = 1, c_product = 8, c_qty = 4\<rparr>]"
    by (simp add: SetCart_mutate_def login_required_def SetCart_body_def CartObj_get_def
        cart_lines_def cart_add_def two_carts_example_def cart_example_def)
  have f: "fst (SetCart_mutate (Some 1) \<lparr>product_id = 8, qty = 4\<rparr> None two_carts_example)
      = Inr [\<lparr>c_user = 1, c_product = 7, c_qty = 2\<rparr>, \<lparr>c_user = 1, c_product = 8, c_qty = 4\<rparr>]"
  proof -
    have "fst (SetCart_mutate (Some 1) \<lparr>product_id = 8, qty = 4\<rparr> None two_carts_example)
        = Inr (filter (\<lambda>l. c_user l = 1)
            (cart (snd (SetCart_mutate (Some 1) \<lparr>product_id = 8, qty = 4\<rparr> None two_carts_example))))"
      using SetCart_semantics [of 1 "\<lparr>product_id = 8, qty = 4\<rparr>" two_carts_example ?c None ?p8]
        l8 p8
      by simp
    then show ?thesis unfolding t by simp
  qed
  have g: "SetCart_mutate (Some 1) \<lparr>product_id = 9, qty = 4\<rparr> None two_carts_example
      = (Inl IntegrityError, two_carts_example)"
    using SetCart_semantics [of 1 "\<lparr>product_id = 9, qty = 4\<rparr>" two_carts_example ?c None ?p8] l9 p9
    by simp
  from a b c d e t f g show ?thesis by simp
qed

text \<open>
  Claim C9 at a concrete input. User 1 holds two units of product 7; the request
  \<open>setCartLine(product 7, qty = -2, add = true)\<close> leaves that cart line stored with
  quantity 0. The branches without \<open>add\<close> and the branch that creates a line test
  \<open>qty > 0\<close>; the \<open>add\<close> branch saves the sum without a test.
\<close>

theorem SetCart_add_leaves_zero_quantity:
  "SetCart_mutate (Some 1) \<lparr>product_id = 7, qty = - 2\<rparr> (Some True) cart_example
     = (Inr [\<lparr>c_user = 1, c_product = 7, c_qty = 0\<rparr>],
        cart_example\<lparr>cart := [\<lparr>c_user = 1, c_product = 7, c_qty = 0\<rparr>]\<rparr>)"
  by (simp add: cart_example_def SetCart_mutate_def login_required_def SetCart_body_def
      CartObj_get_def cart_lines_def cart_save_def cart_of_def)

subsection \<open>What each step of an order leaves alone\<close>

lemma frame_product_save [simp]:
  "cart (product_save p s) = cart s" "orders (product_save p s) = orders s"
  "order_objs (product_save p s) = order_objs s" "addresses (product_save p s) = addresses s"
  "appointments (product_save p s) = appointments s" "outbox (product_save p s) = outbox s"
  by (simp_all add: product_save_def)

lemma frame_product_objects_add [simp]:
  "cart (product_objects_add oid pid q pr s) = cart s"
  "orders (product_objects_add oid pid q pr s) = orders s"
  "products (product_objects_add oid pid q pr s) = products s"
  "addresses (product_objects_add oid pid q pr s) = addresses s"
  "appointments (product_objects_add oid pid q pr s) = appointments s"
  "outbox (product_objects_add oid pid q pr s) = outbox s"
  by (simp_all add: product_objects_add_def)

lemma frame_order_mails [simp]:
  "cart (order_mails order u s) = cart s" "orders (order_mails order u s) = orders s"
  "products (order_mails order u s) = products s" "order_objs (order_mails order u s) = order_objs s"
  "addresses (order_mails order u s) = addresses s"
  "appointments (order_mails order u s) = appointments s"
  by (simp_all add: order_mails_def)

lemma frame_Order_create [simp]:
  "cart (snd (Order_create u a s)) = cart s" "products (snd (Order_create u a s)) = products s"
  "order_objs (snd (Order_create u a s)) = order_objs s"
  "addresses (snd (Order_create u a s)) = addresses s"
  "appointments (snd (Order_create u a s)) = appointments s"
  "outbox (snd (Order_create u a s)) = outbox s"
  by (simp_all add: Order_create_def Let_def)

lemma frame_cart_obj_delete [simp]:
  "products (cart_obj_delete c s) = products s" "orders (cart_obj_delete c s) = orders s"
  "order_objs (cart_obj_delete c s) = order_objs s" "addresses (cart_obj_delete c s) = addresses s"
  "appointments (cart_obj_delete c s) = appointments s" "outbox (cart_obj_delete c s) = outbox s"
  by (simp_all add: cart_obj_delete_def)

text \<open>
  Claim C8. \<open>OrderSingleProduct\<close> never changes the cart table: whoever calls it, with
  whatever arguments, and whether it returns or raises, every cart line of every user
  is there afterwards with the quantity it had.
\<close>

theorem OrderProduct_cart_untouched:
  "cart (snd (OrderProduct_mutate fl ctx product_obj address_id s)) = cart s"
  by (simp add: OrderProduct_mutate_def login_required_def OrderProduct_body_def Let_def
      Order_create_def split: option.splits sum.splits)

subsection \<open>The errors an order can raise\<close>

lemma OrderProduct_errors:
  "fst (OrderProduct_mutate fl ctx product_obj address_id s) = Inl e \<Longrightarrow>
   e = PermissionDenied \<or> e = DoesNotExist \<or> e = Exception ''Stock Error''"
  by (auto simp add: OrderProduct_mutate_def login_required_def OrderProduct_body_def Let_def
      Order_create_def Address_get_def Product_get_def split: option.splits sum.splits if_splits)

lemma OrderCart_loop_errors:
  "OrderCart_loop fl order cs s = (Some e, s') \<Longrightarrow> e = DoesNotExist \<or> e = Exception ''Stock Error''"
  by (induction cs arbitrary: s)
     (auto simp: Product_get_def split: option.splits sum.splits if_splits)

lemma OrderCart_errors:
  "fst (OrderCart_mutate fl ctx address_id s) = Inl e \<Longrightarrow>
   e = PermissionDenied \<or> e = DoesNotExist \<or> e = Exception ''Stock Error''"
  by (auto simp add: OrderCart_mutate_def login_required_def OrderCart_body_def Let_def
      Order_create_def Address_get_def split: option.splits sum.splits if_splits prod.splits
      dest: OrderCart_loop_errors)


subsection \<open>The loop over the cart\<close>

lemma Product_get_cong: "products s = products s' \<Longrightarrow> Product_get pid s = Product_get pid s'"
  by (simp add: Product_get_def)

lemma Product_get_id: "Product_get pid s = Inr p \<Longrightarrow> p_id p = pid"
  by (auto simp: Product_get_def split: option.splits dest: find_Some_iff [THEN iffD1])

lemma find_map_save:
  "find (\<lambda>r. p_id r = pid) ps = Some p \<Longrightarrow>
   find (\<lambda>r. p_id r = pid) (map (\<lambda>r. if p_id r = p_id p' then p' else r) ps)
     = Some (if pid = p_id p' then p' else p)"
  by (induction ps) (auto split: if_splits)

lemma find_map_save_None:
  "find (\<lambda>r. p_id r = pid) ps = None \<Longrightarrow>
   find (\<lambda>r. p_id r = pid) (map (\<lambda>r. if p_id r = p_id p' then p' else r) ps) = None"
  by (induction ps) (auto split: if_splits)

lemma Product_get_save:
  "Product_get pid (product_save p' s) =
     (case Product_get pid s of
        Inl e \<Rightarrow> Inl e
      | Inr p \<Rightarrow> Inr (if pid = p_id p' then p' else p))"
  by (auto simp: Product_get_def product_save_def find_map_save find_map_save_None
      split: option.splits)

lemma Product_get_commit_line:
  assumes "Product_get (c_product c) s = Inr product"
  shows "Product_get pid (commit_line fl order c product s) =
     (if pid = c_product c then Inr (product\<lparr>p_stock := p_stock product - c_qty c\<rparr>)
      else Product_get pid s)"
proof -
  have i: "p_id product = c_product c" using assms by (rule Product_get_id)
  have "Product_get pid (commit_line fl order c product s)
      = Product_get pid (product_save (product\<lparr>p_stock := p_stock product - c_qty c\<rparr>) s)"
    by (rule Product_get_cong) (simp add: commit_line_def Let_def)
  also have "\<dots> = (if pid = c_product c then Inr (product\<lparr>p_stock := p_stock product - c_qty c\<rparr>)
      else Product_get pid s)"
    using assms i by (auto simp: Product_get_save split: sum.splits)
  finally show ?thesis .
qed

lemma OrderCart_loop_stock:
  "OrderCart_loop fl order cs s = (None, s') \<Longrightarrow> Product_get pid s = Inr p \<Longrightarrow>
   Product_get pid s' = Inr (p\<lparr>p_stock := p_stock p - lines_qty pid cs\<rparr>)"
proof (induction cs arbitrary: s p)
  case Nil
  then show ?case by (simp add: lines_qty_def)
next
  case (Cons c cs)
  from Cons.prems(1) obtain product where
    g: "Product_get (c_product c) s = Inr product" and
    ok: "\<not> p_stock product < c_qty c" and
    rest: "OrderCart_loop fl order cs (commit_line fl order c product s) = (None, s')"
    by (auto split: sum.splits if_splits)
  show ?case
  proof (cases "pid = c_product c")
    case True
    with g Cons.prems(2) have "product = p" by simp
    with True g have "Product_get pid (commit_line fl order c product s)
        = Inr (p\<lparr>p_stock := p_stock p - c_qty c\<rparr>)"
      by (simp add: Product_get_commit_line)
    from Cons.IH [OF rest this] True show ?thesis
      by (simp add: lines_qty_def algebra_simps)
  next
    case False
    with g Cons.prems(2) have "Product_get pid (commit_line fl order c product s) = Inr p"
      by (simp add: Product_get_commit_line)
    from Cons.IH [OF rest this] False show ?thesis
      by (simp add: lines_qty_def)
  qed
qed

lemma OrderCart_loop_append:
  "OrderCart_loop fl order (pre @ rest) s =
     (case OrderCart_loop fl order pre s of
        (None, s') \<Rightarrow> OrderCart_loop fl order rest s'
      | (Some e, s') \<Rightarrow> (Some e, s'))"
  by (induction pre arbitrary: s) (auto split: sum.splits)

lemma filter_remove1_head:
  "filter P ys = x # xs \<Longrightarrow> filter P (remove1 x ys) = xs"
proof (induction ys)
  case Nil
  then show ?case by simp
next
  case (Cons y ys)
  have "x \<in> set (filter P (y # ys))" by (simp only: Cons.prems list.set_intros)
  then have px: "P x" unfolding set_filter by blast
  show ?case
  proof (cases "P y")
    case True
    with Cons.prems show ?thesis by simp
  next
    case False
    with px have "x \<noteq> y" by auto
    with False Cons show ?thesis by simp
  qed
qed

lemma filter_remove1_other: "\<not> P x \<Longrightarrow> filter P (remove1 x ys) = filter P ys"
  by (induction ys) auto

lemma cart_of_commit_line:
  "cart_of u s = c # cs \<Longrightarrow> cart_of u (commit_line fl order c product s) = cs"
  by (simp add: cart_of_def commit_line_def Let_def cart_obj_delete_def filter_remove1_head)

lemma cart_of_commit_line_other:
  "c_user c \<noteq> u' \<Longrightarrow> cart_of u' (commit_line fl order c product s) = cart_of u' s"
  by (simp add: cart_of_def commit_line_def Let_def cart_obj_delete_def filter_remove1_other)

lemma OrderCart_loop_cart:
  "OrderCart_loop fl order pre s = (None, s') \<Longrightarrow> cart_of u s = pre @ rest \<Longrightarrow>
   cart_of u s' = rest"
proof (induction pre arbitrary: s)
  case Nil
  then show ?case by simp
next
  case (Cons c pre)
  from Cons.prems(1) obtain product where
    rest: "OrderCart_loop fl order pre (commit_line fl order c product s) = (None, s')"
    by (auto split: sum.splits if_splits)
  from Cons.prems(2) have "cart_of u (commit_line fl order c product s) = pre @ rest"
    by (simp add: cart_of_commit_line)
  from Cons.IH [OF rest this] show ?case .
qed

lemma OrderCart_loop_cart_other:
  "OrderCart_loop fl order cs s = (None, s') \<Longrightarrow> \<forall>c \<in> set cs. c_user c \<noteq> u' \<Longrightarrow>
   cart_of u' s' = cart_of u' s"
proof (induction cs arbitrary: s)
  case Nil
  then show ?case by simp
next
  case (Cons c cs)
  from Cons.prems(1) obtain product where
    rest: "OrderCart_loop fl order cs (commit_line fl order c product s) = (None, s')"
    by (auto split: sum.splits if_splits)
  from Cons.IH [OF rest] Cons.prems(2) show ?case
    by (simp add: cart_of_commit_line_other)
qed


subsection \<open>A refused order\<close>

lemma frame_commit_line [simp]:
  "orders (commit_line fl order c product s) = orders s"
  "addresses (commit_line fl order c product s) = addresses s"
  "appointments (commit_line fl order c product s) = appointments s"
  "outbox (commit_line fl order c product s) = outbox s"
  by (simp_all add: commit_line_def Let_def)

lemma OrderCart_loop_frame:
  "OrderCart_loop fl order cs s = (r, s') \<Longrightarrow>
   orders s' = orders s \<and> addresses s' = addresses s \<and> appointments s' = appointments s
   \<and> outbox s' = outbox s"
  by (induction cs arbitrary: s) (auto split: sum.splits if_splits)

lemma Order_create_orders:
  "orders (snd (Order_create u a s)) = orders s @ [fst (Order_create u a s)]"
  by (simp add: Order_create_def Let_def)

lemma cart_of_cong: "cart s = cart s' \<Longrightarrow> cart_of u s = cart_of u s'"
  by (simp add: cart_of_def)

lemma OrderCart_body_unfold:
  assumes "Address_get address_id s = Inr a"
  shows "OrderCart_mutate fl (Some u) address_id s =
     (case OrderCart_loop fl (fst (Order_create u a s)) (cart_of u s) (snd (Order_create u a s)) of
        (Some e, s2) \<Rightarrow> (Inl e, s2)
      | (None, s2) \<Rightarrow> (Inr (fst (Order_create u a s)), order_mails (fst (Order_create u a s)) u s2))"
proof -
  obtain order s1 where oc: "Order_create u a s = (order, s1)"
    by (cases "Order_create u a s")
  then have "cart s1 = cart s"
    using frame_Order_create(1) [of u a s] by simp
  then have "cart_of u s1 = cart_of u s" by (rule cart_of_cong)
  then show ?thesis
    using assms oc
    by (auto simp add: OrderCart_mutate_def login_required_def OrderCart_body_def
        split: prod.splits option.splits)
qed

lemma OrderCart_fails_at:
  assumes addr: "Address_get address_id s = Inr a"
    and lines: "cart_of u s = pre @ c # post"
    and pre_ok: "OrderCart_loop fl (fst (Order_create u a s)) pre (snd (Order_create u a s)) = (None, s2)"
    and bad: "Product_get (c_product c) s2 = Inr p" "p_stock p < c_qty c"
  shows "OrderCart_mutate fl (Some u) address_id s = (Inl (Exception ''Stock Error''), s2)"
  using bad by (simp add: OrderCart_body_unfold [OF addr] lines OrderCart_loop_append pre_ok)

lemma OrderCart_loop_nil_state: "OrderCart_loop fl order [] s = (None, s2) \<Longrightarrow> s2 = s"
  by simp

lemma order_price_stock [simp]: "order_price fl (p\<lparr>p_stock := x\<rparr>) = order_price fl p"
  by (simp add: order_price_def)

lemma foldr_max_ge: "x \<in> set xs \<Longrightarrow> x \<le> foldr max xs (0::nat)"
  by (induction xs) auto

lemma next_order_id_fresh: "order_objs_wf s \<Longrightarrow> l \<in> set (order_objs s) \<Longrightarrow> oo_order l \<noteq> next_order_id s"
proof
  assume wf: "order_objs_wf s" and l: "l \<in> set (order_objs s)" and eq: "oo_order l = next_order_id s"
  from wf l have "oo_order l \<in> set (map o_id (orders s))"
    by (simp add: order_objs_wf_def list_all_iff)
  then have "oo_order l \<le> foldr max (map o_id (orders s)) 0" by (rule foldr_max_ge)
  with eq show False by (simp add: next_order_id_def)
qed

lemma Order_create_id: "o_id (fst (Order_create u a s)) = next_order_id s"
  by (simp add: Order_create_def Let_def)

lemma commit_line_order_objs:
  assumes g: "Product_get (c_product c) s = Inr product"
    and new: "\<forall>l \<in> set (order_objs s). \<not> (oo_order l = o_id order \<and> oo_product l = c_product c)"
  shows "order_objs (commit_line fl order c product s) = order_objs s @ order_line_of fl order s c"
proof -
  have i: "p_id product = c_product c" using g by (rule Product_get_id)
  from new have "filter (\<lambda>l. oo_order l = o_id order \<and> oo_product l = c_product c) (order_objs s) = []"
    by (simp add: filter_empty_conv)
  then show ?thesis
    using g i by (simp add: commit_line_def Let_def product_objects_add_def order_line_of_def)
qed

lemma order_line_of_commit_line:
  assumes "Product_get (c_product c) s = Inr product" and "c_product c' \<noteq> c_product c"
  shows "order_line_of fl order (commit_line fl order c product s) c' = order_line_of fl order s c'"
  using assms by (simp add: order_line_of_def Product_get_commit_line)

lemma OrderCart_loop_order_objs:
  "OrderCart_loop fl order pre s = (None, s') \<Longrightarrow> distinct (map c_product pre) \<Longrightarrow>
   \<forall>l \<in> set (order_objs s). oo_order l \<noteq> o_id order \<or> oo_product l \<notin> c_product ` set pre \<Longrightarrow>
   order_objs s' = order_objs s @ concat (map (order_line_of fl order s) pre)"
proof (induction pre arbitrary: s)
  case Nil
  then show ?case by simp
next
  case (Cons c pre)
  from Cons.prems(1) obtain product where
    g: "Product_get (c_product c) s = Inr product" and
    rest: "OrderCart_loop fl order pre (commit_line fl order c product s) = (None, s')"
    by (auto split: sum.splits if_splits)
  let ?s1 = "commit_line fl order c product s"
  have new: "\<forall>l \<in> set (order_objs s). \<not> (oo_order l = o_id order \<and> oo_product l = c_product c)"
    using Cons.prems(3) by auto
  have o1: "order_objs ?s1 = order_objs s @ order_line_of fl order s c"
    using g new by (rule commit_line_order_objs)
  have d: "distinct (map c_product pre)" and nc: "c_product c \<notin> c_product ` set pre"
    using Cons.prems(2) by simp_all
  have "\<forall>l \<in> set (order_objs ?s1). oo_order l \<noteq> o_id order \<or> oo_product l \<notin> c_product ` set pre"
    using Cons.prems(3) nc g by (auto simp: o1 order_line_of_def)
  from Cons.IH [OF rest d this]
  have "order_objs s' = order_objs ?s1 @ concat (map (order_line_of fl order ?s1) pre)" .
  also have "map (order_line_of fl order ?s1) pre = map (order_line_of fl order s) pre"
  proof (rule map_cong [OF refl])
    fix c' assume "c' \<in> set pre"
    with nc have "c_product c' \<noteq> c_product c" by (metis imageI)
    with g show "order_line_of fl order ?s1 c' = order_line_of fl order s c'"
      by (rule order_line_of_commit_line)
  qed
  finally show ?case by (simp add: o1)
qed

lemma order_line_of_cong:
  "products s = products s' \<Longrightarrow> order_line_of fl order s = order_line_of fl order s'"
  by (rule ext) (simp add: order_line_of_def Product_get_def)

lemma OrderCart_order_lines:
  assumes pre_ok: "OrderCart_loop fl (fst (Order_create u a s)) pre (snd (Order_create u a s)) = (None, s2)"
    and wf: "order_objs_wf s" and d: "distinct (map c_product pre)"
  shows "order_objs s2 = order_objs s @ concat (map (order_line_of fl (fst (Order_create u a s)) s) pre)"
proof -
  let ?s1 = "snd (Order_create u a s)" and ?o = "fst (Order_create u a s)"
  have "\<forall>l \<in> set (order_objs ?s1). oo_order l \<noteq> o_id ?o \<or> oo_product l \<notin> c_product ` set pre"
    using next_order_id_fresh [OF wf] by (simp add: Order_create_id)
  from OrderCart_loop_order_objs [OF pre_ok d this]
  show ?thesis by (simp add: order_line_of_cong [of ?s1 s])
qed

lemma OrderCart_stock_error_prefix:
  assumes addr: "Address_get address_id s = Inr a"
    and lines: "cart_of u s = pre @ c # post"
    and pre_ok: "OrderCart_loop fl (fst (Order_create u a s)) pre (snd (Order_create u a s)) = (None, s2)"
    and bad: "Product_get (c_product c) s2 = Inr p" "p_stock p < c_qty c"
  shows "OrderCart_mutate fl (Some u) address_id s = (Inl (Exception ''Stock Error''), s2)
     \<and> orders s2 = orders s @ [fst (Order_create u a s)]
     \<and> cart_of u s2 = c # post
     \<and> (\<forall>pid p0. Product_get pid s = Inr p0 \<longrightarrow>
           Product_get pid s2 = Inr (p0\<lparr>p_stock := p_stock p0 - lines_qty pid pre\<rparr>))
     \<and> (order_objs_wf s \<and> distinct (map c_product pre) \<longrightarrow>
           order_objs s2 =
             order_objs s @ concat (map (order_line_of fl (fst (Order_create u a s)) s) pre))
     \<and> (pre = [] \<longrightarrow> products s2 = products s \<and> cart s2 = cart s \<and> order_objs s2 = order_objs s)"
proof -
  let ?s1 = "snd (Order_create u a s)"
  have a: "OrderCart_mutate fl (Some u) address_id s = (Inl (Exception ''Stock Error''), s2)"
    using assms by (rule OrderCart_fails_at)
  have b: "orders s2 = orders s @ [fst (Order_create u a s)]"
    using OrderCart_loop_frame [OF pre_ok] by (simp add: Order_create_orders)
  have "cart_of u ?s1 = pre @ c # post"
    using lines by (simp add: cart_of_cong [of ?s1 s])
  with pre_ok have c: "cart_of u s2 = c # post" by (rule OrderCart_loop_cart)
  have d: "\<forall>pid p0. Product_get pid s = Inr p0 \<longrightarrow>
           Product_get pid s2 = Inr (p0\<lparr>p_stock := p_stock p0 - lines_qty pid pre\<rparr>)"
  proof (intro allI impI)
    fix pid p0 assume "Product_get pid s = Inr p0"
    then have "Product_get pid ?s1 = Inr p0"
      by (simp add: Product_get_cong [of ?s1 s])
    with pre_ok show "Product_get pid s2 = Inr (p0\<lparr>p_stock := p_stock p0 - lines_qty pid pre\<rparr>)"
      by (rule OrderCart_loop_stock)
  qed
  have e: "pre = [] \<longrightarrow> products s2 = products s \<and> cart s2 = cart s \<and> order_objs s2 = order_objs s"
    using pre_ok by auto
  have f: "order_objs_wf s \<and> distinct (map c_product pre) \<longrightarrow>
           order_objs s2 =
             order_objs s @ concat (map (order_line_of fl (fst (Order_create u a s)) s) pre)"
    using OrderCart_order_lines [OF pre_ok] by blast
  from a b c d e f show ?thesis by blast
qed

lemma OrderProduct_stock_error:
  assumes "Address_get address_id s = Inr a"
    and "Product_get (product_id product_obj) s = Inr p" and "p_stock p < qty product_obj"
  shows "OrderProduct_mutate fl (Some u) product_obj address_id s =
     (Inl (Exception ''Stock Error''), s\<lparr>orders := orders s @ [fst (Order_create u a s)]\<rparr>)"
proof -
  have "Product_get (product_id product_obj) (s\<lparr>orders := orders s @ [fst (Order_create u a s)]\<rparr>)
      = Inr p"
    using assms(2) by (simp add: Product_get_def)
  with assms show ?thesis
    by (simp add: OrderProduct_mutate_def login_required_def OrderProduct_body_def
        Order_create_def Let_def)
qed

lemma shop_order_refused:
  "OrderCart_mutate (\<lambda>x. x) (Some 1) 1 shop_example =
     (Inl (Exception ''Stock Error''), shop_after_refusal)"
  by (simp add: shop_after_refusal_def shop_example_def OrderCart_mutate_def login_required_def
      OrderCart_body_def Address_get_def Order_create_def next_order_id_def cart_of_def
      Product_get_def commit_line_def product_save_def product_objects_add_def order_price_def
      cart_obj_delete_def Let_def)

text \<open>
  Claim C1, as the code has it. \<open>OrderFromCart\<close> runs through the cart lines in order.
  When the lines \<open>pre\<close> pass the stock test and the next line \<open>c\<close> asks for more than the
  stock its product has when \<open>c\<close> is reached, the call raises the stock error and leaves
  the state \<open>s2\<close> reached after \<open>pre\<close>: the order row is stored, the lines of \<open>pre\<close> are
  committed (each product's stock is lower by what \<open>pre\<close> took of it, and the order lines
  of \<open>pre\<close> are added after those the state had, one for each line, in a state where
  every order line belongs to a stored order and \<open>pre\<close> has one line for a product) and
  gone from the cart, and \<open>c\<close> and the lines after it are still in the cart. Only when
  \<open>c\<close> is the first line are the products, the cart and the order lines as they were
  before the call. A
  refused \<open>OrderSingleProduct\<close> changes nothing but the orders table, which holds the new
  order row.
\<close>

theorem OrderCart_stock_error_partial:
  "(Address_get address_id s = Inr a \<and> cart_of u s = pre @ c # post
      \<and> OrderCart_loop fl (fst (Order_create u a s)) pre (snd (Order_create u a s)) = (None, s2)
      \<and> Product_get (c_product c) s2 = Inr p \<and> p_stock p < c_qty c
    \<longrightarrow> OrderCart_mutate fl (Some u) address_id s = (Inl (Exception ''Stock Error''), s2)
       \<and> orders s2 = orders s @ [fst (Order_create u a s)]
       \<and> cart_of u s2 = c # post
       \<and> (\<forall>pid p0. Product_get pid s = Inr p0 \<longrightarrow>
             Product_get pid s2 = Inr (p0\<lparr>p_stock := p_stock p0 - lines_qty pid pre\<rparr>))
       \<and> (order_objs_wf s \<and> distinct (map c_product pre) \<longrightarrow>
             order_objs s2 =
               order_objs s @ concat (map (order_line_of fl (fst (Order_create u a s)) s) pre))
       \<and> (pre = [] \<longrightarrow>
             products s2 = products s \<and> cart s2 = cart s \<and> order_objs s2 = order_objs s))
   \<and> (Address_get address_id s = Inr a \<and> Product_get (product_id product_obj) s = Inr p'
      \<and> p_stock p' < qty product_obj
    \<longrightarrow> OrderProduct_mutate fl (Some u) product_obj address_id s =
         (Inl (Exception ''Stock Error''), s\<lparr>orders := orders s @ [fst (Order_create u a s)]\<rparr>))"
  using OrderCart_stock_error_prefix [of address_id s a u pre c post fl s2 p]
    OrderProduct_stock_error [of address_id s a product_obj p' fl u]
  by blast

theorem OrderCart_stock_error_partial_witness:
  "OrderCart_mutate (\<lambda>x. x) (Some 1) 1 shop_example
     = (Inl (Exception ''Stock Error''), shop_after_refusal)
   \<and> cart_of 1 shop_after_refusal = [\<lparr>c_user = 1, c_product = 2, c_qty = 3\<rparr>]
   \<and> Product_get 1 shop_after_refusal
     = Inr \<lparr>p_id = 1, p_name = ''Red Shoe'', p_kind = ''shoe'', p_price = 100, p_discount = 10,
            p_stock = 3\<rparr>
   \<and> order_objs shop_after_refusal
     = order_objs shop_example @ [\<lparr>oo_order = 1, oo_product = 1, oo_qty = 2, oo_price = 90\<rparr>]
   \<and> OrderProduct_mutate (\<lambda>x. x) (Some 1) \<lparr>product_id = 2, qty = 3\<rparr> 1 shop_example
     = (Inl (Exception ''Stock Error''),
        shop_example\<lparr>orders := [\<lparr>o_id = 1, o_user = 1, o_name = ''A'', o_phone = ''1'',
           o_address1 = ''x'', o_address2 = ''y'', o_pincode = 1, o_city = ''c'',
           o_state = ''s'', o_country = ''n''\<rparr>]\<rparr>)"
proof -
  let ?a = "\<lparr>a_id = 1, a_user = 1, a_name = ''A'', a_phone = ''1'', a_address1 = ''x'',
          a_address2 = ''y'', a_pincode = 1, a_city = ''c'', a_state = ''s'', a_country = ''n''\<rparr>"
  let ?l1 = "\<lparr>c_user = 1, c_product = 1, c_qty = 2\<rparr>"
  let ?l2 = "\<lparr>c_user = 1, c_product = 2, c_qty = 3\<rparr>"
  let ?p2 = "\<lparr>p_id = 2, p_name = ''Blue Hat'', p_kind = ''hat'', p_price = 99, p_discount = 15,
            p_stock = 1\<rparr>"
  have h1: "Address_get 1 shop_example = Inr ?a"
    by (simp add: Address_get_def shop_example_def)
  have h2: "cart_of 1 shop_example = [?l1] @ ?l2 # []"
    by (simp add: cart_of_def shop_example_def)
  have h3: "OrderCart_loop (\<lambda>x. x) (fst (Order_create 1 ?a shop_example)) [?l1]
       (snd (Order_create 1 ?a shop_example)) = (None, shop_after_refusal)"
    by (simp add: shop_after_refusal_def shop_example_def Order_create_def next_order_id_def
        Product_get_def commit_line_def product_save_def product_objects_add_def
        order_price_def cart_obj_delete_def Let_def)
  have h4: "Product_get (c_product ?l2) shop_after_refusal = Inr ?p2"
    by (simp add: Product_get_def shop_after_refusal_def shop_example_def)
  have h5: "p_stock ?p2 < c_qty ?l2" by simp
  have h6: "Product_get (product_id \<lparr>product_id = 2, qty = 3\<rparr>) shop_example = Inr ?p2"
    by (simp add: Product_get_def shop_example_def)
  have h7: "p_stock ?p2 < qty \<lparr>product_id = 2, qty = 3\<rparr>" by simp
  have h8: "Product_get 1 shop_example
     = Inr \<lparr>p_id = 1, p_name = ''Red Shoe'', p_kind = ''shoe'', p_price = 100, p_discount = 10,
            p_stock = 5\<rparr>"
    by (simp add: Product_get_def shop_example_def)
  have h9: "fst (Order_create 1 ?a shop_example) = \<lparr>o_id = 1, o_user = 1, o_name = ''A'',
      o_phone = ''1'', o_address1 = ''x'', o_address2 = ''y'', o_pincode = 1, o_city = ''c'',
      o_state = ''s'', o_country = ''n''\<rparr>"
    "orders shop_example = []"
    by (simp_all add: Order_create_def next_order_id_def shop_example_def Let_def)
  have h10: "order_objs_wf shop_example" "distinct (map c_product [?l1])"
    by (simp_all add: order_objs_wf_def shop_example_def)
  have h11: "concat (map (order_line_of (\<lambda>x. x) (fst (Order_create 1 ?a shop_example)) shop_example)
      [?l1]) = [\<lparr>oo_order = 1, oo_product = 1, oo_qty = 2, oo_price = 90\<rparr>]"
    by (simp add: order_line_of_def Product_get_def shop_example_def Order_create_def
        next_order_id_def order_price_def Let_def)
  from OrderCart_stock_error_partial [of 1 shop_example ?a 1 "[?l1]" ?l2 "[]" "\<lambda>x. x"
      shop_after_refusal ?p2 "\<lparr>product_id = 2, qty = 3\<rparr>" ?p2]
    h1 h2 h3 h4 h5 h6 h7 h8 h9
  have "OrderCart_mutate (\<lambda>x. x) (Some 1) 1 shop_example
     = (Inl (Exception ''Stock Error''), shop_after_refusal)
   \<and> cart_of 1 shop_after_refusal = [\<lparr>c_user = 1, c_product = 2, c_qty = 3\<rparr>]
   \<and> Product_get 1 shop_after_refusal
     = Inr \<lparr>p_id = 1, p_name = ''Red Shoe'', p_kind = ''shoe'', p_price = 100, p_discount = 10,
            p_stock = 3\<rparr>
   \<and> OrderProduct_mutate (\<lambda>x. x) (Some 1) \<lparr>product_id = 2, qty = 3\<rparr> 1 shop_example
     = (Inl (Exception ''Stock Error''),
        shop_example\<lparr>orders := [\<lparr>o_id = 1, o_user = 1, o_name = ''A'', o_phone = ''1'',
           o_address1 = ''x'', o_address2 = ''y'', o_pincode = 1, o_city = ''c'',
           o_state = ''s'', o_country = ''n''\<rparr>]\<rparr>)"
    by (simp add: lines_qty_def)
  moreover
  from OrderCart_stock_error_partial [of 1 shop_example ?a 1 "[?l1]" ?l2 "[]" "\<lambda>x. x"
      shop_after_refusal ?p2 "\<lparr>product_id = 2, qty = 3\<rparr>" ?p2]
    h1 h2 h3 h4 h5 h10
  have "order_objs shop_after_refusal
     = order_objs shop_example
       @ concat (map (order_line_of (\<lambda>x. x) (fst (Order_create 1 ?a shop_example)) shop_example)
           [?l1])"
    by blast
  then have "order_objs shop_after_refusal
     = order_objs shop_example @ [\<lparr>oo_order = 1, oo_product = 1, oo_qty = 2, oo_price = 90\<rparr>]"
    unfolding h11 .
  ultimately show ?thesis by blast
qed

text \<open>
  Claim C1 as stated fails: in the example shop the order of user 1 is refused at the
  second cart line, after the first line took two units of product 1 out of stock and
  out of the cart, and the order row and its first order line stay stored.
\<close>

theorem OrderCart_stock_error_not_atomic:
  "fst (OrderCart_mutate (\<lambda>x. x) (Some 1) 1 shop_example) = Inl (Exception ''Stock Error'')
   \<and> map p_stock (products shop_example) = [5, 1]
   \<and> map p_stock (products (snd (OrderCart_mutate (\<lambda>x. x) (Some 1) 1 shop_example))) = [3, 1]
   \<and> cart shop_example = [\<lparr>c_user = 1, c_product = 1, c_qty = 2\<rparr>, \<lparr>c_user = 1, c_product = 2, c_qty = 3\<rparr>]
   \<and> cart (snd (OrderCart_mutate (\<lambda>x. x) (Some 1) 1 shop_example))
       = [\<lparr>c_user = 1, c_product = 2, c_qty = 3\<rparr>]
   \<and> orders shop_example = []
   \<and> map o_id (orders (snd (OrderCart_mutate (\<lambda>x. x) (Some 1) 1 shop_example))) = [1]
   \<and> order_objs (snd (OrderCart_mutate (\<lambda>x. x) (Some 1) 1 shop_example))
       = [\<lparr>oo_order = 1, oo_product = 1, oo_qty = 2, oo_price = 90\<rparr>]"
  unfolding shop_order_refused
  by (simp add: shop_after_refusal_def shop_example_def)

subsection \<open>The message of the stock error\<close>

text \<open>
  Claim C7, as the code has it. Whenever \<open>OrderFromCart\<close> or \<open>OrderSingleProduct\<close> fails
  because a requested quantity exceeds the stock of the product, the error raised is the
  plain exception with the fixed message \<open>Stock Error\<close>; no exception either mutation
  raises carries any other message, so the message is the same whichever product is short.
\<close>

theorem stock_error_message_fixed:
  "(Address_get address_id s = Inr a \<and> Product_get (product_id product_obj) s = Inr p
      \<and> p_stock p < qty product_obj
    \<longrightarrow> fst (OrderProduct_mutate fl (Some u) product_obj address_id s)
          = Inl (Exception ''Stock Error''))
   \<and> (Address_get address_id s = Inr a \<and> cart_of u s = pre @ c # post
      \<and> OrderCart_loop fl (fst (Order_create u a s)) pre (snd (Order_create u a s)) = (None, s2)
      \<and> Product_get (c_product c) s2 = Inr p' \<and> p_stock p' < c_qty c
    \<longrightarrow> fst (OrderCart_mutate fl (Some u) address_id s) = Inl (Exception ''Stock Error''))
   \<and> (\<forall>ctx m. fst (OrderCart_mutate fl ctx address_id s) = Inl (Exception m)
         \<longrightarrow> m = ''Stock Error'')
   \<and> (\<forall>ctx m. fst (OrderProduct_mutate fl ctx product_obj address_id s) = Inl (Exception m)
         \<longrightarrow> m = ''Stock Error'')"
proof -
  have a: "Address_get address_id s = Inr a \<and> Product_get (product_id product_obj) s = Inr p
      \<and> p_stock p < qty product_obj
    \<longrightarrow> fst (OrderProduct_mutate fl (Some u) product_obj address_id s)
          = Inl (Exception ''Stock Error'')"
    using OrderProduct_stock_error [of address_id s a product_obj p fl u] by simp
  have b: "Address_get address_id s = Inr a \<and> cart_of u s = pre @ c # post
      \<and> OrderCart_loop fl (fst (Order_create u a s)) pre (snd (Order_create u a s)) = (None, s2)
      \<and> Product_get (c_product c) s2 = Inr p' \<and> p_stock p' < c_qty c
    \<longrightarrow> fst (OrderCart_mutate fl (Some u) address_id s) = Inl (Exception ''Stock Error'')"
    using OrderCart_fails_at [of address_id s a u pre c post fl s2 p'] by simp
  have c: "\<forall>ctx m. fst (OrderCart_mutate fl ctx address_id s) = Inl (Exception m)
         \<longrightarrow> m = ''Stock Error''"
    using OrderCart_errors by blast
  have d: "\<forall>ctx m. fst (OrderProduct_mutate fl ctx product_obj address_id s) = Inl (Exception m)
         \<longrightarrow> m = ''Stock Error''"
    using OrderProduct_errors by blast
  from a b c d show ?thesis by blast
qed

theorem stock_error_message_fixed_witness:
  "fst (OrderProduct_mutate (\<lambda>x. x) (Some 1) \<lparr>product_id = 2, qty = 3\<rparr> 1 shop_example)
     = Inl (Exception ''Stock Error'')
   \<and> fst (OrderCart_mutate (\<lambda>x. x) (Some 1) 1 shop_example) = Inl (Exception ''Stock Error'')"
proof -
  let ?a = "\<lparr>a_id = 1, a_user = 1, a_name = ''A'', a_phone = ''1'', a_address1 = ''x'',
          a_address2 = ''y'', a_pincode = 1, a_city = ''c'', a_state = ''s'', a_country = ''n''\<rparr>"
  let ?l1 = "\<lparr>c_user = 1, c_product = 1, c_qty = 2\<rparr>"
  let ?l2 = "\<lparr>c_user = 1, c_product = 2, c_qty = 3\<rparr>"
  let ?p2 = "\<lparr>p_id = 2, p_name = ''Blue Hat'', p_kind = ''hat'', p_price = 99, p_discount = 15,
            p_stock = 1\<rparr>"
  have h1: "Address_get 1 shop_example = Inr ?a"
    by (simp add: Address_get_def shop_example_def)
  have h2: "cart_of 1 shop_example = [?l1] @ ?l2 # []"
    by (simp add: cart_of_def shop_example_def)
  have h3: "OrderCart_loop (\<lambda>x. x) (fst (Order_create 1 ?a shop_example)) [?l1]
       (snd (Order_create 1 ?a shop_example)) = (None, shop_after_refusal)"
    by (simp add: shop_after_refusal_def shop_example_def Order_create_def next_order_id_def
        Product_get_def commit_line_def product_save_def product_objects_add_def
        order_price_def cart_obj_delete_def Let_def)
  have h4: "Product_get (c_product ?l2) shop_after_refusal = Inr ?p2"
    by (simp add: Product_get_def shop_after_refusal_def shop_example_def)
  have h5: "p_stock ?p2 < c_qty ?l2" by simp
  have h6: "Product_get (product_id \<lparr>product_id = 2, qty = 3\<rparr>) shop_example = Inr ?p2"
    by (simp add: Product_get_def shop_example_def)
  have h7: "p_stock ?p2 < qty \<lparr>product_id = 2, qty = 3\<rparr>" by simp
  from stock_error_message_fixed [of 1 shop_example ?a "\<lparr>product_id = 2, qty = 3\<rparr>" ?p2
      "\<lambda>x. x" 1 "[?l1]" ?l2 "[]" shop_after_refusal ?p2]
    h1 h2 h3 h4 h5 h6 h7
  show ?thesis by simp
qed

text \<open>
  Claim C7 as stated fails: an order of nine units of product 1 and an order of nine units
  of product 2 are both refused for lack of stock, and the two errors are the same value;
  nothing in it tells the products apart.
\<close>

theorem stock_error_same_for_two_products:
  "fst (OrderProduct_mutate (\<lambda>x. x) (Some 1) \<lparr>product_id = 1, qty = 9\<rparr> 1 shop_example)
     = Inl (Exception ''Stock Error'')
   \<and> fst (OrderProduct_mutate (\<lambda>x. x) (Some 1) \<lparr>product_id = 2, qty = 9\<rparr> 1 shop_example)
     = Inl (Exception ''Stock Error'')
   \<and> product_id \<lparr>product_id = 1, qty = 9\<rparr> \<noteq> product_id \<lparr>product_id = 2, qty = 9\<rparr>"
  by (simp add: shop_example_def OrderProduct_mutate_def login_required_def
      OrderProduct_body_def Address_get_def Order_create_def next_order_id_def Product_get_def
      Let_def)

subsection \<open>Stock\<close>

lemma stock_nonneg_cong: "products s' = products s \<Longrightarrow> stock_nonneg s \<Longrightarrow> stock_nonneg s'"
  by (simp add: stock_nonneg_def)

lemma stock_nonneg_save:
  "stock_nonneg s \<Longrightarrow> 0 \<le> p_stock p \<Longrightarrow> stock_nonneg (product_save p s)"
  by (auto simp: stock_nonneg_def product_save_def list_all_iff)

lemma stock_nonneg_commit_line:
  assumes "stock_nonneg s" and "\<not> p_stock product < c_qty c"
  shows "stock_nonneg (commit_line fl order c product s)"
proof -
  let ?p = "product\<lparr>p_stock := p_stock product - c_qty c\<rparr>"
  have "stock_nonneg (product_save ?p s)"
    using assms by (intro stock_nonneg_save) simp_all
  moreover have "products (commit_line fl order c product s) = products (product_save ?p s)"
    by (simp add: commit_line_def Let_def)
  ultimately show ?thesis by (rule stock_nonneg_cong [rotated])
qed

lemma stock_nonneg_loop:
  "stock_nonneg s \<Longrightarrow> stock_nonneg (snd (OrderCart_loop fl order cs s))"
  by (induction cs arbitrary: s) (auto split: sum.splits simp: stock_nonneg_commit_line)

lemma stock_nonneg_OrderCart:
  assumes "stock_nonneg s"
  shows "stock_nonneg (snd (OrderCart_mutate fl ctx address_id s))"
proof (cases ctx)
  case None
  with assms show ?thesis by (simp add: OrderCart_mutate_def login_required_def)
next
  case (Some u)
  show ?thesis
  proof (cases "Address_get address_id s")
    case (Inl e)
    with Some assms show ?thesis
      by (simp add: OrderCart_mutate_def login_required_def OrderCart_body_def)
  next
    case (Inr a)
    let ?s1 = "snd (Order_create u a s)"
    let ?r = "OrderCart_loop fl (fst (Order_create u a s)) (cart_of u s) ?s1"
    have "stock_nonneg ?s1" using _ assms by (rule stock_nonneg_cong) simp
    then have l: "stock_nonneg (snd ?r)" by (rule stock_nonneg_loop)
    have "products (snd (OrderCart_mutate fl (Some u) address_id s)) = products (snd ?r)"
      by (simp add: OrderCart_body_unfold [OF Inr] split: prod.splits option.splits)
    then have "stock_nonneg (snd (OrderCart_mutate fl (Some u) address_id s))"
      using l by (rule stock_nonneg_cong)
    with Some show ?thesis by simp
  qed
qed

lemma OrderProduct_body_unfold:
  assumes "Address_get address_id s = Inr a"
    and "Product_get (product_id product_obj) s = Inr p"
    and "\<not> p_stock p < qty product_obj"
  shows "OrderProduct_mutate fl (Some u) product_obj address_id s =
     (Inr (fst (Order_create u a s)),
      order_mails (fst (Order_create u a s)) u
        (product_objects_add (o_id (fst (Order_create u a s))) (product_id product_obj)
           (qty product_obj) (order_price fl (p\<lparr>p_stock := p_stock p - qty product_obj\<rparr>))
           (product_save (p\<lparr>p_stock := p_stock p - qty product_obj\<rparr>)
              (snd (Order_create u a s)))))"
proof -
  obtain order s1 where oc: "Order_create u a s = (order, s1)"
    by (cases "Order_create u a s")
  then have "products s1 = products s"
    using frame_Order_create(2) [of u a s] by simp
  then have "Product_get (product_id product_obj) s1 = Inr p"
    using assms(2) by (simp add: Product_get_cong [of s1 s])
  moreover have "p_id p = product_id product_obj" using assms(2) by (rule Product_get_id)
  ultimately show ?thesis
    using assms(1,3) oc
    by (simp add: OrderProduct_mutate_def login_required_def OrderProduct_body_def Let_def)
qed

lemma OrderProduct_success:
  assumes "Address_get address_id s = Inr a"
    and "Product_get (product_id product_obj) s = Inr p"
    and "\<not> p_stock p < qty product_obj"
  shows "fst (OrderProduct_mutate fl (Some u) product_obj address_id s)
           = Inr (fst (Order_create u a s))
     \<and> Product_get pid (snd (OrderProduct_mutate fl (Some u) product_obj address_id s))
         = (if pid = product_id product_obj
            then Inr (p\<lparr>p_stock := p_stock p - qty product_obj\<rparr>)
            else Product_get pid s)"
proof -
  let ?s1 = "snd (Order_create u a s)"
  let ?p = "p\<lparr>p_stock := p_stock p - qty product_obj\<rparr>"
  have g: "Product_get x ?s1 = Product_get x s" for x
    by (rule Product_get_cong) simp
  have i: "p_id p = product_id product_obj" using assms(2) by (rule Product_get_id)
  have "Product_get pid (snd (OrderProduct_mutate fl (Some u) product_obj address_id s))
      = Product_get pid (product_save ?p ?s1)"
    unfolding OrderProduct_body_unfold [OF assms] snd_conv
    by (rule Product_get_cong) simp
  also have "\<dots> = (if pid = product_id product_obj then Inr ?p else Product_get pid s)"
    using assms(2) i by (auto simp: Product_get_save g split: sum.splits)
  finally show ?thesis
    by (simp add: OrderProduct_body_unfold [OF assms])
qed

lemma stock_nonneg_OrderProduct:
  assumes "stock_nonneg s"
  shows "stock_nonneg (snd (OrderProduct_mutate fl ctx product_obj address_id s))"
proof (cases ctx)
  case None
  with assms show ?thesis by (simp add: OrderProduct_mutate_def login_required_def)
next
  case (Some u)
  show ?thesis
  proof (cases "Address_get address_id s")
    case (Inl e)
    with Some assms show ?thesis
      by (simp add: OrderProduct_mutate_def login_required_def OrderProduct_body_def)
  next
    case (Inr a)
    let ?s1 = "snd (Order_create u a s)"
    have s1: "stock_nonneg ?s1" using _ assms by (rule stock_nonneg_cong) simp
    have g: "Product_get (product_id product_obj) ?s1 = Product_get (product_id product_obj) s"
      by (rule Product_get_cong) simp
    show ?thesis
    proof (cases "Product_get (product_id product_obj) s")
      case (Inl e)
      with g have "snd (OrderProduct_mutate fl (Some u) product_obj address_id s) = ?s1"
        using Inr
        by (cases "Order_create u a s")
           (simp add: OrderProduct_mutate_def login_required_def OrderProduct_body_def)
      with s1 Some show ?thesis by simp
    next
      case p: (Inr p)
      show ?thesis
      proof (cases "p_stock p < qty product_obj")
        case True
        have "products (snd (OrderProduct_mutate fl (Some u) product_obj address_id s)) = products s"
          by (simp add: OrderProduct_stock_error [OF Inr p True])
        then have "stock_nonneg (snd (OrderProduct_mutate fl (Some u) product_obj address_id s))"
          using assms by (rule stock_nonneg_cong)
        with Some show ?thesis by simp
      next
        case False
        let ?p = "p\<lparr>p_stock := p_stock p - qty product_obj\<rparr>"
        have "stock_nonneg (product_save ?p ?s1)"
          using s1 False by (intro stock_nonneg_save) simp_all
        moreover have "products (snd (OrderProduct_mutate fl (Some u) product_obj address_id s))
            = products (product_save ?p ?s1)"
          by (simp add: OrderProduct_body_unfold [OF Inr p False])
        ultimately have "stock_nonneg (snd (OrderProduct_mutate fl (Some u) product_obj address_id s))"
          by (rule stock_nonneg_cong [rotated])
        with Some show ?thesis by simp
      qed
    qed
  qed
qed

lemma products_SetCart_body: "products (snd (SetCart_body cart_obj add u s)) = products s"
  by (auto simp add: SetCart_body_def Let_def cart_save_def cart_remove_def cart_add_def
      split: sum.splits error.splits if_splits)

lemma products_SetCart: "products (snd (SetCart_mutate ctx cart_obj add s)) = products s"
  by (cases ctx) (simp_all add: SetCart_mutate_def login_required_def products_SetCart_body)

lemma products_BookAppointment:
  "products (snd (BookAppointment_mutate ctx timestamp s)) = products s"
  by (cases ctx)
     (simp_all add: BookAppointment_mutate_def login_required_def BookAppointment_body_def Let_def)

lemma stock_nonneg_exec: "stock_nonneg s \<Longrightarrow> stock_nonneg (exec fl r s)"
proof (cases r)
  case (SetCartReq x y z)
  assume "stock_nonneg s"
  then show ?thesis
    using stock_nonneg_cong [OF products_SetCart [of x y z s]] SetCartReq by simp
next
  case (OrderCartReq x y)
  assume "stock_nonneg s"
  then show ?thesis using OrderCartReq by (simp add: stock_nonneg_OrderCart)
next
  case (OrderProductReq x y z)
  assume "stock_nonneg s"
  then show ?thesis using OrderProductReq by (simp add: stock_nonneg_OrderProduct)
next
  case (BookAppointmentReq x y)
  assume "stock_nonneg s"
  then show ?thesis
    using stock_nonneg_cong [OF products_BookAppointment [of x y s]] BookAppointmentReq by simp
qed

lemma stock_nonneg_run: "stock_nonneg s \<Longrightarrow> stock_nonneg (run fl reqs s)"
  unfolding run_def by (induction reqs arbitrary: s) (simp_all add: stock_nonneg_exec)

lemma OrderCart_success_stock:
  assumes "Address_get address_id s = Inr a"
    and "fst (OrderCart_mutate fl (Some u) address_id s) = Inr order"
    and "Product_get pid s = Inr p"
  shows "Product_get pid (snd (OrderCart_mutate fl (Some u) address_id s))
     = Inr (p\<lparr>p_stock := p_stock p - lines_qty pid (cart_of u s)\<rparr>)"
proof -
  let ?s1 = "snd (Order_create u a s)"
  obtain r s2 where l: "OrderCart_loop fl (fst (Order_create u a s)) (cart_of u s) ?s1 = (r, s2)"
    by (cases "OrderCart_loop fl (fst (Order_create u a s)) (cart_of u s) ?s1")
  with assms(2) have r: "r = None"
    by (cases r) (simp_all add: OrderCart_body_unfold [OF assms(1)])
  have "Product_get pid ?s1 = Inr p"
    using assms(3) by (simp add: Product_get_cong [of ?s1 s])
  with l r have "Product_get pid s2 = Inr (p\<lparr>p_stock := p_stock p - lines_qty pid (cart_of u s)\<rparr>)"
    using OrderCart_loop_stock by blast
  moreover have "Product_get pid (snd (OrderCart_mutate fl (Some u) address_id s)) = Product_get pid s2"
    using l r by (simp add: OrderCart_body_unfold [OF assms(1)] Product_get_cong [of "order_mails x y z" z for x y z])
  ultimately show ?thesis by simp
qed


text \<open>
  Claim C2. An \<open>OrderSingleProduct\<close> that passes the stock test returns the order and
  leaves the product with its stock lowered by the quantity, every other product as it
  was; each cart line that passes the test in \<open>OrderFromCart\<close> does the same for its
  product, so that after a successful \<open>OrderFromCart\<close> every product's stock is lower by
  the quantities the user's cart lines asked of it. A quantity above the stock is
  refused with the stock error and the products table is left as it stood at that
  point. No sequence of requests takes a state in which no stock is negative to one in
  which some stock is.
\<close>

theorem stock_decrement_and_nonneg:
  "(Address_get address_id s = Inr a \<and> Product_get (product_id product_obj) s = Inr p
      \<and> \<not> p_stock p < qty product_obj
    \<longrightarrow> fst (OrderProduct_mutate fl (Some u) product_obj address_id s)
          = Inr (fst (Order_create u a s))
      \<and> (\<forall>pid. Product_get pid (snd (OrderProduct_mutate fl (Some u) product_obj address_id s))
            = (if pid = product_id product_obj
               then Inr (p\<lparr>p_stock := p_stock p - qty product_obj\<rparr>)
               else Product_get pid s)))
   \<and> (Address_get address_id s = Inr a \<and> Product_get (product_id product_obj) s = Inr p
      \<and> p_stock p < qty product_obj
    \<longrightarrow> fst (OrderProduct_mutate fl (Some u) product_obj address_id s)
          = Inl (Exception ''Stock Error'')
      \<and> products (snd (OrderProduct_mutate fl (Some u) product_obj address_id s)) = products s)
   \<and> (Product_get (c_product c) s = Inr p \<and> \<not> p_stock p < c_qty c
    \<longrightarrow> OrderCart_loop fl order (c # cs) s
          = OrderCart_loop fl order cs (commit_line fl order c p s)
      \<and> (\<forall>pid. Product_get pid (commit_line fl order c p s)
            = (if pid = c_product c then Inr (p\<lparr>p_stock := p_stock p - c_qty c\<rparr>)
               else Product_get pid s)))
   \<and> (Product_get (c_product c) s = Inr p \<and> p_stock p < c_qty c
    \<longrightarrow> OrderCart_loop fl order (c # cs) s = (Some (Exception ''Stock Error''), s))
   \<and> (Address_get address_id s = Inr a
      \<and> fst (OrderCart_mutate fl (Some u) address_id s) = Inr order'
      \<and> Product_get pid' s = Inr p0
    \<longrightarrow> Product_get pid' (snd (OrderCart_mutate fl (Some u) address_id s))
          = Inr (p0\<lparr>p_stock := p_stock p0 - lines_qty pid' (cart_of u s)\<rparr>))
   \<and> (stock_nonneg s \<longrightarrow> stock_nonneg (run fl reqs s))"
proof -
  have a: "Address_get address_id s = Inr a \<and> Product_get (product_id product_obj) s = Inr p
      \<and> \<not> p_stock p < qty product_obj
    \<longrightarrow> fst (OrderProduct_mutate fl (Some u) product_obj address_id s)
          = Inr (fst (Order_create u a s))
      \<and> (\<forall>pid. Product_get pid (snd (OrderProduct_mutate fl (Some u) product_obj address_id s))
            = (if pid = product_id product_obj
               then Inr (p\<lparr>p_stock := p_stock p - qty product_obj\<rparr>)
               else Product_get pid s))"
    using OrderProduct_success [of address_id s a product_obj p fl u] by blast
  have b: "Address_get address_id s = Inr a \<and> Product_get (product_id product_obj) s = Inr p
      \<and> p_stock p < qty product_obj
    \<longrightarrow> fst (OrderProduct_mutate fl (Some u) product_obj address_id s)
          = Inl (Exception ''Stock Error'')
      \<and> products (snd (OrderProduct_mutate fl (Some u) product_obj address_id s)) = products s"
    using OrderProduct_stock_error [of address_id s a product_obj p fl u] by simp
  have c: "Product_get (c_product c) s = Inr p \<and> \<not> p_stock p < c_qty c
    \<longrightarrow> OrderCart_loop fl order (c # cs) s
          = OrderCart_loop fl order cs (commit_line fl order c p s)
      \<and> (\<forall>pid. Product_get pid (commit_line fl order c p s)
            = (if pid = c_product c then Inr (p\<lparr>p_stock := p_stock p - c_qty c\<rparr>)
               else Product_get pid s))"
    using Product_get_commit_line [of c s p _ fl order] by simp
  have d: "Product_get (c_product c) s = Inr p \<and> p_stock p < c_qty c
    \<longrightarrow> OrderCart_loop fl order (c # cs) s = (Some (Exception ''Stock Error''), s)"
    by simp
  have e: "Address_get address_id s = Inr a
      \<and> fst (OrderCart_mutate fl (Some u) address_id s) = Inr order'
      \<and> Product_get pid' s = Inr p0
    \<longrightarrow> Product_get pid' (snd (OrderCart_mutate fl (Some u) address_id s))
          = Inr (p0\<lparr>p_stock := p_stock p0 - lines_qty pid' (cart_of u s)\<rparr>)"
    using OrderCart_success_stock [of address_id s a fl u order' pid' p0] by blast
  have f: "stock_nonneg s \<longrightarrow> stock_nonneg (run fl reqs s)"
    by (simp add: stock_nonneg_run)
  from a b c d e f show ?thesis by blast
qed

theorem stock_decrement_and_nonneg_witness:
  "fst (OrderProduct_mutate (\<lambda>x. x) (Some 1) \<lparr>product_id = 1, qty = 2\<rparr> 1 shop_example)
     = Inr \<lparr>o_id = 1, o_user = 1, o_name = ''A'', o_phone = ''1'', o_address1 = ''x'',
            o_address2 = ''y'', o_pincode = 1, o_city = ''c'', o_state = ''s'', o_country = ''n''\<rparr>
   \<and> Product_get 1 (snd (OrderProduct_mutate (\<lambda>x. x) (Some 1) \<lparr>product_id = 1, qty = 2\<rparr> 1
        shop_example))
     = Inr \<lparr>p_id = 1, p_name = ''Red Shoe'', p_kind = ''shoe'', p_price = 100, p_discount = 10,
            p_stock = 3\<rparr>
   \<and> fst (OrderProduct_mutate (\<lambda>x. x) (Some 1) \<lparr>product_id = 2, qty = 3\<rparr> 1 shop_example)
     = Inl (Exception ''Stock Error'')
   \<and> products (snd (OrderProduct_mutate (\<lambda>x. x) (Some 1) \<lparr>product_id = 2, qty = 3\<rparr> 1
        shop_example)) = products shop_example
   \<and> Product_get 1 (snd (OrderCart_mutate (\<lambda>x. x) (Some 1) 1 small_cart_example))
     = Inr \<lparr>p_id = 1, p_name = ''Red Shoe'', p_kind = ''shoe'', p_price = 100, p_discount = 10,
            p_stock = 3\<rparr>
   \<and> stock_nonneg (run (\<lambda>x. x)
        [OrderCartReq (Some 1) 1, OrderProductReq (Some 1) \<lparr>product_id = 1, qty = 9\<rparr> 1,
         SetCartReq (Some 1) \<lparr>product_id = 1, qty = - 4\<rparr> (Some True)] shop_example)"
proof -
  let ?a = "\<lparr>a_id = 1, a_user = 1, a_name = ''A'', a_phone = ''1'', a_address1 = ''x'',
          a_address2 = ''y'', a_pincode = 1, a_city = ''c'', a_state = ''s'', a_country = ''n''\<rparr>"
  let ?o = "\<lparr>o_id = 1, o_user = 1, o_name = ''A'', o_phone = ''1'', o_address1 = ''x'',
            o_address2 = ''y'', o_pincode = 1, o_city = ''c'', o_state = ''s'', o_country = ''n''\<rparr>"
  let ?l1 = "\<lparr>c_user = 1, c_product = 1, c_qty = 2\<rparr>"
  let ?p1 = "\<lparr>p_id = 1, p_name = ''Red Shoe'', p_kind = ''shoe'', p_price = 100, p_discount = 10,
            p_stock = 5\<rparr>"
  let ?p2 = "\<lparr>p_id = 2, p_name = ''Blue Hat'', p_kind = ''hat'', p_price = 99, p_discount = 15,
            p_stock = 1\<rparr>"
  let ?reqs = "[OrderCartReq (Some 1) 1, OrderProductReq (Some 1) \<lparr>product_id = 1, qty = 9\<rparr> 1,
         SetCartReq (Some 1) \<lparr>product_id = 1, qty = - 4\<rparr> (Some True)]"
  have h1: "Address_get 1 shop_example = Inr ?a" "Address_get 1 small_cart_example = Inr ?a"
    by (simp_all add: Address_get_def shop_example_def small_cart_example_def)
  have h2: "Product_get 1 shop_example = Inr ?p1" "Product_get 2 shop_example = Inr ?p2"
    "Product_get 1 small_cart_example = Inr ?p1"
    by (simp_all add: Product_get_def shop_example_def small_cart_example_def)
  have h3: "fst (Order_create 1 ?a shop_example) = ?o"
    by (simp add: Order_create_def next_order_id_def shop_example_def Let_def)
  have h4: "fst (OrderCart_mutate (\<lambda>x. x) (Some 1) 1 small_cart_example) = Inr ?o"
    by (simp add: small_cart_example_def shop_example_def OrderCart_mutate_def
        login_required_def OrderCart_body_def Address_get_def Order_create_def next_order_id_def
        cart_of_def Product_get_def commit_line_def product_save_def product_objects_add_def
        order_price_def cart_obj_delete_def Let_def)
  have h5: "lines_qty 1 (cart_of 1 small_cart_example) = 2"
    by (simp add: lines_qty_def cart_of_def small_cart_example_def)
  have h6: "stock_nonneg shop_example"
    by (simp add: stock_nonneg_def shop_example_def)
  note t1 = stock_decrement_and_nonneg [where s = shop_example and a = ?a and address_id = 1
      and product_obj = "\<lparr>product_id = 1, qty = 2\<rparr>" and p = ?p1 and fl = "\<lambda>x. x" and u = 1
      and c = ?l1 and order = ?o and cs = "[]" and order' = ?o and pid' = 1 and p0 = ?p1
      and reqs = ?reqs]
  note t2 = stock_decrement_and_nonneg [where s = shop_example and a = ?a and address_id = 1
      and product_obj = "\<lparr>product_id = 2, qty = 3\<rparr>" and p = ?p2 and fl = "\<lambda>x. x" and u = 1
      and c = ?l1 and order = ?o and cs = "[]" and order' = ?o and pid' = 1 and p0 = ?p1
      and reqs = ?reqs]
  note t3 = stock_decrement_and_nonneg [where s = small_cart_example and a = ?a and address_id = 1
      and product_obj = "\<lparr>product_id = 2, qty = 3\<rparr>" and p = ?p2 and fl = "\<lambda>x. x" and u = 1
      and c = ?l1 and order = ?o and cs = "[]" and order' = ?o and pid' = 1 and p0 = ?p1
      and reqs = ?reqs]
  have a: "fst (OrderProduct_mutate (\<lambda>x. x) (Some 1) \<lparr>product_id = 1, qty = 2\<rparr> 1 shop_example) = Inr ?o
    \<and> Product_get 1 (snd (OrderProduct_mutate (\<lambda>x. x) (Some 1) \<lparr>product_id = 1, qty = 2\<rparr> 1
        shop_example)) = Inr (?p1\<lparr>p_stock := 3\<rparr>)"
    using t1 h1 h2 h3 by simp
  have b: "fst (OrderProduct_mutate (\<lambda>x. x) (Some 1) \<lparr>product_id = 2, qty = 3\<rparr> 1 shop_example)
     = Inl (Exception ''Stock Error'')
   \<and> products (snd (OrderProduct_mutate (\<lambda>x. x) (Some 1) \<lparr>product_id = 2, qty = 3\<rparr> 1
        shop_example)) = products shop_example"
    using t2 h1 h2 by simp
  have c: "Product_get 1 (snd (OrderCart_mutate (\<lambda>x. x) (Some 1) 1 small_cart_example))
     = Inr (?p1\<lparr>p_stock := 3\<rparr>)"
    using t3 h1 h2 h4 h5 by simp
  have d: "stock_nonneg (run (\<lambda>x. x) ?reqs shop_example)"
    using t1 h6 by blast
  from a b c d show ?thesis by simp
qed

subsection \<open>Dates as text\<close>






lemma length_date_str: "length (date_str d) = 10"
  by (cases d) (simp add: date_str_def pad4_def pad2_def)



lemma prefix_same_length:
  "length xs = length ys \<Longrightarrow> prefix xs (ys @ r) \<longleftrightarrow> xs = ys"
  by (auto simp: prefix_def)

lemma prefix_date_str:
  "prefix (date_str d) (timestamp_text t) \<longleftrightarrow> date_str d = date_str (datetime_date t)"
proof -
  have "prefix (date_str d) (date_str (datetime_date t) @ r)
          \<longleftrightarrow> date_str d = date_str (datetime_date t)" for r
    by (rule prefix_same_length) (simp only: length_date_str)
  then show ?thesis unfolding timestamp_text_def .
qed

lemma same_date_startswith:
  "datetime_date ts = datetime_date t \<Longrightarrow> prefix (date_str (datetime_date ts)) (timestamp_text t)"
  by (simp only: prefix_date_str)



subsection \<open>Booking an appointment\<close>












subsection \<open>The booked dates\<close>



subsection \<open>The product list\<close>

lemma icontains_empty: "icontains name []"
  by (simp add: icontains_def)

text \<open>
  Claim C6, as the code has it. For a skip and a first that are not negative, the
  product list is the list the specification words (the products whose name contains
  the search string whatever the case and whose kind is the given kind, each filter
  applied when its argument is given, the first \<open>skip\<close> matches dropped and at most
  \<open>first\<close> of the rest kept), with two differences that come from the tests
  \<open>if first:\<close> and \<open>if kind:\<close>: a \<open>first\<close> of 0 caps nothing, as an absent \<open>first\<close>,
  and an empty kind string filters nothing, as an absent kind.
\<close>

theorem resolve_products_truthy:
  "(\<forall>n. skip = Some n \<longrightarrow> 0 \<le> n) \<and> (\<forall>n. first = Some n \<longrightarrow> 0 \<le> n) \<longrightarrow>
     resolve_products first skip search kind s =
       Inr (listProducts_spec (if first = Some 0 then None else first) skip search
              (if kind = Some [] then None else kind) (products s))"
  by (auto simp: resolve_products_def listProducts_spec_def slice_from_def slice_to_def Let_def
      icontains_empty split: option.splits)

theorem resolve_products_truthy_witness:
  "resolve_products (Some 1) (Some 1) (Some ''E'') None shop_example =
     Inr [\<lparr>p_id = 2, p_name = ''Blue Hat'', p_kind = ''hat'', p_price = 99, p_discount = 15,
           p_stock = 1\<rparr>]
   \<and> resolve_products (Some 5) None (Some ''sHOE'') (Some ''shoe'') shop_example =
     Inr [\<lparr>p_id = 1, p_name = ''Red Shoe'', p_kind = ''shoe'', p_price = 100, p_discount = 10,
           p_stock = 5\<rparr>]"
proof -
  have h: "\<forall>n. Some (1::int) = Some n \<longrightarrow> 0 \<le> n" "\<forall>n. Some (5::int) = Some n \<longrightarrow> 0 \<le> n"
    "\<forall>n. (None::int option) = Some n \<longrightarrow> 0 \<le> n"
    by simp_all
  have e1: "listProducts_spec (Some 1) (Some 1) (Some ''E'') None (products shop_example) =
     [\<lparr>p_id = 2, p_name = ''Blue Hat'', p_kind = ''hat'', p_price = 99, p_discount = 15,
           p_stock = 1\<rparr>]"
    by (simp add: listProducts_spec_def shop_example_def icontains_def lower_char_def
        sublist_code)
  have e2: "listProducts_spec (Some 5) None (Some ''sHOE'') (Some ''shoe'') (products shop_example) =
     [\<lparr>p_id = 1, p_name = ''Red Shoe'', p_kind = ''shoe'', p_price = 100, p_discount = 10,
           p_stock = 5\<rparr>]"
    by (simp add: listProducts_spec_def shop_example_def icontains_def lower_char_def
        sublist_code)
  have a: "resolve_products (Some 1) (Some 1) (Some ''E'') None shop_example =
      Inr (listProducts_spec (Some 1) (Some 1) (Some ''E'') None (products shop_example))"
    using resolve_products_truthy [of "Some 1" "Some 1" "Some ''E''" None shop_example] h
    by simp
  have b: "resolve_products (Some 5) None (Some ''sHOE'') (Some ''shoe'') shop_example =
      Inr (listProducts_spec (Some 5) None (Some ''sHOE'') (Some ''shoe'') (products shop_example))"
    using resolve_products_truthy [of None "Some 5" "Some ''sHOE''" "Some ''shoe''" shop_example] h
    by simp
  from a b show ?thesis unfolding e1 e2 by blast
qed

text \<open>
  Claim C6 as stated fails: in the example shop \<open>first = 0\<close> returns both products, where
  the specification returns none, and so does an empty kind string, which no product
  has as its kind.
\<close>

theorem resolve_products_first_zero_not_empty:
  "resolve_products (Some 0) None None None shop_example = Inr (products shop_example)
   \<and> length (products shop_example) = 2
   \<and> listProducts_spec (Some 0) None None None (products shop_example) = []
   \<and> resolve_products None None None (Some '''') shop_example = Inr (products shop_example)
   \<and> listProducts_spec None None None (Some '''') (products shop_example) = []"
  by (simp add: resolve_products_def listProducts_spec_def shop_example_def)

subsection \<open>The price of an order line\<close>

lemma of_int_abs_le_100: "\<bar>n\<bar> \<le> 100 * 2 ^ 40 \<Longrightarrow> \<bar>(of_int n :: real)\<bar> \<le> 100 * 2 ^ 40" for n :: int
proof -
  assume "\<bar>n\<bar> \<le> 100 * 2 ^ 40"
  then have "(of_int \<bar>n\<bar> :: real) \<le> of_int (100 * 2 ^ 40)" by (simp only: of_int_le_iff)
  then show ?thesis by simp
qed

lemma of_int_abs_le_40: "\<bar>n\<bar> \<le> 2 ^ 40 \<Longrightarrow> \<bar>(of_int n :: real)\<bar> \<le> 2 ^ 40" for n :: int
proof -
  assume "\<bar>n\<bar> \<le> 2 ^ 40"
  then have "(of_int \<bar>n\<bar> :: real) \<le> of_int (2 ^ 40)" by (simp only: of_int_le_iff)
  then show ?thesis by simp
qed

lemma of_int_abs_ge_1: "n \<noteq> 0 \<Longrightarrow> 1 \<le> \<bar>(of_int n :: real)\<bar>" for n :: int
proof -
  assume "n \<noteq> 0"
  then have "1 \<le> \<bar>n\<bar>" by linarith
  then have "(of_int 1 :: real) \<le> of_int \<bar>n\<bar>" by (simp only: of_int_le_iff)
  then show ?thesis by simp
qed

lemma rel_err_13: "\<bar>q\<bar> \<le> 2 ^ 40 \<Longrightarrow> \<bar>q\<bar> / 2 ^ 53 \<le> 1 / 2 ^ 13" for q :: real
  by (simp add: field_simps)

lemma rel_err_11: "\<bar>y\<bar> \<le> 2 ^ 42 \<Longrightarrow> \<bar>y\<bar> / 2 ^ 53 \<le> 1 / 2 ^ 11" for y :: real
  by (simp add: field_simps)

lemma hundredths_between:
  fixes m :: int
  assumes "\<not> 100 dvd m"
  shows "of_int (m div 100 + 1) - 1 + 1 / 100 \<le> (of_int m / 100 :: real)
     \<and> (of_int m / 100 :: real) \<le> of_int (m div 100 + 1) - 1 / 100"
proof -
  define j where "j = m mod 100"
  have "j \<noteq> 0" "0 \<le> j" "j < 100" using assms by (simp_all add: j_def dvd_eq_mod_eq_0)
  then have j: "1 \<le> j" "j \<le> 99" by linarith+
  have "m = 100 * (m div 100) + j" by (simp add: j_def)
  then have "(of_int m :: real) = of_int (100 * (m div 100) + j)" by (simp only:)
  then have e: "(of_int m :: real) = 100 * of_int (m div 100) + of_int j" by simp
  have jr: "1 \<le> (of_int j :: real)" "(of_int j :: real) \<le> 99" using j by simp_all
  show ?thesis unfolding e using jr by (simp add: field_simps)
qed

lemma ceiling_near:
  fixes r v :: real and n :: int
  assumes "of_int n - 1 + 1 / 100 \<le> v" "v \<le> of_int n - 1 / 100" "\<bar>r - v\<bar> < 1 / 100"
  shows "\<lceil>r\<rceil> = n"
proof (rule ceiling_unique)
  show "of_int n - 1 < r" using assms by linarith
  show "r \<le> of_int n" using assms by linarith
qed

lemma away_from_zero:
  fixes v :: real and n :: int
  assumes "of_int n - 1 + 1 / 100 \<le> v" "v \<le> of_int n - 1 / 100"
  shows "1 / 100 \<le> \<bar>v\<bar>"
proof (cases "1 \<le> n")
  case True
  then have "(1::real) \<le> of_int n" by simp
  then show ?thesis using assms(1) by linarith
next
  case False
  then have "n \<le> 0" by linarith
  then have "(of_int n :: real) \<le> 0" by simp
  then show ?thesis using assms(2) by linarith
qed


lemma order_price_exact:
  assumes fl: "binary64_rounding fl"
    and P: "\<bar>p_price p\<bar> \<le> 2 ^ 40" and D: "0 \<le> p_discount p" "p_discount p \<le> 100"
  shows "order_price fl p
     = \<lceil>of_int (p_price p) - of_int (p_price p) * of_int (p_discount p) / (100::real)\<rceil>"
proof -
  define P where "P = p_price p"
  define D where "D = p_discount p"
  define q :: real where "q = of_int (D * P) / 100"
  define v :: real where "v = of_int P - q"
  have rel: "\<And>x. 1 / 1024 \<le> \<bar>x\<bar> \<Longrightarrow> \<bar>x\<bar> \<le> 2 ^ 60 \<Longrightarrow> \<bar>fl x - x\<bar> \<le> \<bar>x\<bar> / 2 ^ 53"
    and ex: "\<And>n::int. \<bar>n\<bar> \<le> 2 ^ 53 \<Longrightarrow> fl (of_int n) = of_int n"
    using fl unfolding binary64_rounding_def by blast+
  have Pb: "\<bar>P\<bar> \<le> 2 ^ 40" and Db: "0 \<le> D" "D \<le> 100"
    using P D by (simp_all only: P_def D_def)
  have DPb: "\<bar>D * P\<bar> \<le> 100 * 2 ^ 40"
  proof -
    have "\<bar>D * P\<bar> = \<bar>D\<bar> * \<bar>P\<bar>" by (rule abs_mult)
    also have "\<dots> \<le> 100 * 2 ^ 40"
    proof (rule mult_mono)
      show "\<bar>D\<bar> \<le> 100" using Db by linarith
      show "\<bar>P\<bar> \<le> 2 ^ 40" by (rule Pb)
      show "(0::int) \<le> 100" by simp
      show "0 \<le> \<bar>P\<bar>" by simp
    qed
    finally show ?thesis .
  qed
  have i53: "(2::int) * 2 ^ 40 \<le> 2 ^ 53" "(2::int) ^ 40 \<le> 2 ^ 53" by simp_all
  have "\<bar>P\<bar> \<le> 2 ^ 53" using Pb i53 by linarith
  then have x1: "fl (of_int P) = of_int P" by (rule ex)
  have goal_eq: "order_price fl p = \<lceil>fl (of_int P - fl q)\<rceil>"
    unfolding order_price_def P_def [symmetric] D_def [symmetric] q_def x1 ..
  have v_eq: "of_int (p_price p) - of_int (p_price p) * of_int (p_discount p) / (100::real) = v"
    unfolding v_def q_def P_def D_def by (simp add: mult.commute)
  have "\<lceil>fl (of_int P - fl q)\<rceil> = \<lceil>v\<rceil>"
  proof (cases "100 dvd D * P")
    case True
    then obtain k where k: "D * P = 100 * k" by (auto simp: dvd_def)
    have qk: "q = of_int k" unfolding q_def k by simp
    have kb: "\<bar>k\<bar> \<le> 2 ^ 40" using DPb unfolding k by (simp add: abs_mult)
    then have "\<bar>k\<bar> \<le> 2 ^ 53" using i53 by linarith
    then have f1: "fl (of_int k) = of_int k" by (rule ex)
    have "\<bar>P - k\<bar> \<le> 2 ^ 53" using Pb kb i53 by linarith
    then have f2: "fl (of_int (P - k)) = of_int (P - k)" by (rule ex)
    have "fl (of_int P - fl q) = fl (of_int (P - k))" unfolding qk f1 by simp
    also have "\<dots> = v" unfolding f2 v_def qk by simp
    finally show ?thesis by (simp only:)
  next
    case False
    define m where "m = 100 * P - D * P"
    define n where "n = m div 100 + 1"
    have nd: "\<not> 100 dvd m" using False unfolding m_def by (simp add: dvd_diff_right_iff)
    have mv: "v = of_int m / 100" unfolding v_def q_def m_def by (simp add: field_simps)
    from hundredths_between [OF nd]
    have lo: "of_int n - 1 + 1 / 100 \<le> v" and hi: "v \<le> of_int n - 1 / 100"
      unfolding mv n_def by blast+
    have q0: "D * P \<noteq> 0" using False by auto
    have "1 \<le> \<bar>(of_int (D * P) :: real)\<bar>" using q0 by (rule of_int_abs_ge_1)
    then have ql: "1 / 1024 \<le> \<bar>q\<bar>" unfolding q_def by simp
    have "\<bar>(of_int (D * P) :: real)\<bar> \<le> 100 * 2 ^ 40" using DPb by (rule of_int_abs_le_100)
    then have qh: "\<bar>q\<bar> \<le> 2 ^ 40" unfolding q_def by simp
    have qh': "\<bar>q\<bar> \<le> 2 ^ 60"
    proof -
      have "(2::real) ^ 40 \<le> 2 ^ 60" by (rule power_increasing) simp_all
      with qh show ?thesis by linarith
    qed
    have "\<bar>fl q - q\<bar> \<le> \<bar>q\<bar> / 2 ^ 53" using ql qh' by (rule rel)
    also have "\<dots> \<le> 1 / 2 ^ 13" using qh by (rule rel_err_13)
    finally have e1: "\<bar>fl q - q\<bar> \<le> 1 / 2 ^ 13" .
    define y where "y = of_int P - fl q"
    have yv: "\<bar>y - v\<bar> \<le> 1 / 2 ^ 13" using e1 unfolding y_def v_def by linarith
    have Pr: "\<bar>(of_int P :: real)\<bar> \<le> 2 ^ 40" using Pb by (rule of_int_abs_le_40)
    have vabs_hi: "\<bar>v\<bar> \<le> 2 * 2 ^ 40" using Pr qh unfolding v_def by linarith
    have vabs_lo: "1 / 100 \<le> \<bar>v\<bar>" using lo hi by (rule away_from_zero)
    have c13: "(1::real) / 2 ^ 13 \<le> 1 / 200" by simp
    have yl': "1 / 200 \<le> \<bar>y\<bar>" using yv vabs_lo c13 by linarith
    have yl: "1 / 1024 \<le> \<bar>y\<bar>" using yl' by simp
    have c40: "(1::real) \<le> 2 ^ 40" by simp
    have yh': "\<bar>y\<bar> \<le> 3 * 2 ^ 40" using yv vabs_hi c13 c40 by linarith
    have yh: "\<bar>y\<bar> \<le> 2 ^ 42" using yh' by simp
    have yh60: "\<bar>y\<bar> \<le> 2 ^ 60"
    proof -
      have "(2::real) ^ 42 \<le> 2 ^ 60" by (rule power_increasing) simp_all
      with yh show ?thesis by linarith
    qed
    have "\<bar>fl y - y\<bar> \<le> \<bar>y\<bar> / 2 ^ 53" using yl yh60 by (rule rel)
    also have "\<dots> \<le> 1 / 2 ^ 11" using yh by (rule rel_err_11)
    finally have e2: "\<bar>fl y - y\<bar> \<le> 1 / 2 ^ 11" .
    have c11: "(1::real) / 2 ^ 11 + 1 / 2 ^ 13 < 1 / 100" by simp
    have near: "\<bar>fl y - v\<bar> < 1 / 100" using e2 yv c11 by linarith
    from lo hi near have "\<lceil>fl y\<rceil> = n" by (rule ceiling_near)
    moreover have "\<bar>v - v\<bar> < 1 / 100" by simp
    with lo hi have "\<lceil>v\<rceil> = n" by (rule ceiling_near)
    ultimately show ?thesis unfolding y_def by (simp only:)
  qed
  then show ?thesis by (simp only: goal_eq v_eq)
qed


subsection \<open>The order lines of an order\<close>

lemma OrderProduct_order_line:
  assumes addr: "Address_get address_id s = Inr a"
    and g: "Product_get (product_id product_obj) s = Inr p"
    and ok: "\<not> p_stock p < qty product_obj"
    and wf: "order_objs_wf s"
  shows "order_objs (snd (OrderProduct_mutate fl (Some u) product_obj address_id s))
     = order_objs s @ [\<lparr>oo_order = o_id (fst (Order_create u a s)),
          oo_product = product_id product_obj, oo_qty = qty product_obj,
          oo_price = order_price fl p\<rparr>]"
proof -
  have i: "p_id p = product_id product_obj" using g by (rule Product_get_id)
  have "\<forall>l \<in> set (order_objs s). oo_order l \<noteq> o_id (fst (Order_create u a s))"
    using next_order_id_fresh [OF wf] by (simp add: Order_create_id)
  then have "filter (\<lambda>l. oo_order l = o_id (fst (Order_create u a s))
      \<and> oo_product l = product_id product_obj) (order_objs s) = []"
    by (simp add: filter_empty_conv)
  then show ?thesis
    unfolding OrderProduct_body_unfold [OF addr g ok] snd_conv
    by (simp add: product_objects_add_def i)
qed

lemma OrderCart_loop_products_exist:
  "OrderCart_loop fl order cs s = (None, s') \<Longrightarrow> c \<in> set cs \<Longrightarrow>
   \<exists>p. Product_get (c_product c) s = Inr p"
proof (induction cs arbitrary: s)
  case Nil
  then show ?case by simp
next
  case (Cons c0 cs)
  from Cons.prems(1) obtain product where
    g: "Product_get (c_product c0) s = Inr product" and
    rest: "OrderCart_loop fl order cs (commit_line fl order c0 product s) = (None, s')"
    by (auto split: sum.splits if_splits)
  show ?case
  proof (cases "c_product c = c_product c0")
    case True
    with g show ?thesis by simp
  next
    case False
    with Cons.prems(2) have "c \<in> set cs"
      by auto
    from Cons.IH [OF rest this] obtain p where
      "Product_get (c_product c) (commit_line fl order c0 product s) = Inr p" by blast
    with g False show ?thesis by (simp add: Product_get_commit_line)
  qed
qed

lemma OrderCart_success_order_lines:
  assumes addr: "Address_get address_id s = Inr a"
    and ok: "fst (OrderCart_mutate fl (Some u) address_id s) = Inr order"
    and wf: "order_objs_wf s" and d: "distinct (map c_product (cart_of u s))"
  shows "order_objs (snd (OrderCart_mutate fl (Some u) address_id s))
       = order_objs s @ concat (map (order_line_of fl order s) (cart_of u s))
     \<and> (\<forall>c \<in> set (cart_of u s). \<exists>p. Product_get (c_product c) s = Inr p
           \<and> order_line_of fl order s c
               = [\<lparr>oo_order = o_id order, oo_product = c_product c, oo_qty = c_qty c,
                   oo_price = order_price fl p\<rparr>])"
proof -
  let ?s1 = "snd (Order_create u a s)" and ?o = "fst (Order_create u a s)"
  obtain r s2 where l: "OrderCart_loop fl ?o (cart_of u s) ?s1 = (r, s2)"
    by (cases "OrderCart_loop fl ?o (cart_of u s) ?s1")
  with ok have r: "r = None" and o: "order = ?o"
    by (cases r; simp add: OrderCart_body_unfold [OF addr])+
  from l r have l': "OrderCart_loop fl ?o (cart_of u s) ?s1 = (None, s2)" by simp
  have "order_objs (snd (OrderCart_mutate fl (Some u) address_id s)) = order_objs s2"
    using l' by (simp add: OrderCart_body_unfold [OF addr])
  also have "\<dots> = order_objs s @ concat (map (order_line_of fl ?o s) (cart_of u s))"
    using l' wf d by (rule OrderCart_order_lines)
  finally have 1: "order_objs (snd (OrderCart_mutate fl (Some u) address_id s))
       = order_objs s @ concat (map (order_line_of fl order s) (cart_of u s))"
    by (simp only: o)
  have 2: "\<exists>p. Product_get (c_product c) s = Inr p
           \<and> order_line_of fl order s c
               = [\<lparr>oo_order = o_id order, oo_product = c_product c, oo_qty = c_qty c,
                   oo_price = order_price fl p\<rparr>]" if "c \<in> set (cart_of u s)" for c
  proof -
    from OrderCart_loop_products_exist [OF l' that] obtain p where
      "Product_get (c_product c) ?s1 = Inr p" by blast
    then have "Product_get (c_product c) s = Inr p"
      by (simp add: Product_get_cong [of ?s1 s])
    then show ?thesis by (simp add: order_line_of_def)
  qed
  from 1 2 show ?thesis by blast
qed

lemma prefix_product_objects_add:
  "prefix (order_objs s) (order_objs (product_objects_add oid pid q pr s))"
  by (simp add: product_objects_add_def)

lemma prefix_commit_line: "prefix (order_objs s) (order_objs (commit_line fl order c product s))"
proof -
  have "order_objs (commit_line fl order c product s)
      = order_objs (product_objects_add (o_id order) (p_id product) (c_qty c)
          (order_price fl (product\<lparr>p_stock := p_stock product - c_qty c\<rparr>))
          (product_save (product\<lparr>p_stock := p_stock product - c_qty c\<rparr>) s))"
    by (simp add: commit_line_def Let_def)
  moreover have "prefix (order_objs (product_save (product\<lparr>p_stock := p_stock product - c_qty c\<rparr>) s))
      (order_objs (product_objects_add (o_id order) (p_id product) (c_qty c)
          (order_price fl (product\<lparr>p_stock := p_stock product - c_qty c\<rparr>))
          (product_save (product\<lparr>p_stock := p_stock product - c_qty c\<rparr>) s)))"
    by (rule prefix_product_objects_add)
  ultimately show ?thesis by simp
qed

lemma prefix_OrderCart_loop:
  "OrderCart_loop fl order cs s = (r, s') \<Longrightarrow> prefix (order_objs s) (order_objs s')"
proof (induction cs arbitrary: s)
  case Nil
  then show ?case by simp
next
  case (Cons c cs)
  show ?case
  proof (cases "Product_get (c_product c) s")
    case (Inl e)
    with Cons.prems show ?thesis by simp
  next
    case (Inr product)
    show ?thesis
    proof (cases "p_stock product < c_qty c")
      case True
      with Inr Cons.prems show ?thesis by simp
    next
      case False
      with Inr Cons.prems
      have "OrderCart_loop fl order cs (commit_line fl order c product s) = (r, s')" by simp
      from Cons.IH [OF this] prefix_commit_line [of s fl order c product]
      show ?thesis by (rule prefix_order.trans [rotated])
    qed
  qed
qed

lemma prefix_OrderCart:
  "prefix (order_objs s) (order_objs (snd (OrderCart_mutate fl ctx address_id s)))"
proof (cases ctx)
  case None
  then show ?thesis by (simp add: OrderCart_mutate_def login_required_def)
next
  case (Some u)
  show ?thesis
  proof (cases "Address_get address_id s")
    case (Inl e)
    then show ?thesis using Some
      by (simp add: OrderCart_mutate_def login_required_def OrderCart_body_def)
  next
    case (Inr a)
    obtain r s2 where l: "OrderCart_loop fl (fst (Order_create u a s)) (cart_of u s)
        (snd (Order_create u a s)) = (r, s2)"
      by (cases "OrderCart_loop fl (fst (Order_create u a s)) (cart_of u s) (snd (Order_create u a s))")
    from prefix_OrderCart_loop [OF l] have "prefix (order_objs s) (order_objs s2)" by simp
    then show ?thesis
      using Some l by (cases r) (simp_all add: OrderCart_body_unfold [OF Inr])
  qed
qed

lemma prefix_OrderProduct:
  "prefix (order_objs s) (order_objs (snd (OrderProduct_mutate fl ctx product_obj address_id s)))"
  by (simp add: OrderProduct_mutate_def login_required_def OrderProduct_body_def Let_def
      Order_create_def product_objects_add_def split: option.splits sum.splits)

lemma order_objs_SetCart:
  "order_objs (snd (SetCart_mutate ctx cart_obj add s)) = order_objs s"
  by (cases ctx)
     (auto simp add: SetCart_mutate_def login_required_def SetCart_body_def Let_def cart_save_def
       cart_remove_def cart_add_def split: sum.splits error.splits if_splits)

lemma order_objs_BookAppointment:
  "order_objs (snd (BookAppointment_mutate ctx timestamp s)) = order_objs s"
  by (cases ctx)
     (simp_all add: BookAppointment_mutate_def login_required_def BookAppointment_body_def Let_def)

lemma prefix_exec: "prefix (order_objs s) (order_objs (exec fl r s))"
  by (cases r)
     (simp_all add: order_objs_SetCart order_objs_BookAppointment prefix_OrderCart
       prefix_OrderProduct)

lemma prefix_run: "prefix (order_objs s) (order_objs (run fl reqs s))"
  unfolding run_def
proof (induction reqs arbitrary: s)
  case Nil
  then show ?case by simp
next
  case (Cons r reqs)
  from prefix_exec [of s fl r] Cons.IH [of "exec fl r s"]
  show ?case by (simp add: prefix_order.trans)
qed

lemma binary64_rounding_id: "binary64_rounding (\<lambda>x. x)"
  by (simp add: binary64_rounding_def)

text \<open>
  Claim C4. For a product whose price is an integer of at most 40 bits and whose
  discount is a percentage from 0 to 100, the price computed in floating point is the
  exact \<open>ceil(p - p * d / 100)\<close>. A successful \<open>OrderSingleProduct\<close> appends one order
  line with the product, the quantity asked and that price, computed from the product as
  the call finds it; a successful \<open>OrderFromCart\<close> appends one such line for each cart
  line, in the order of the cart (in a state where every order line belongs to a stored
  order and the cart has one line for a product). The order line holds the price as a
  number of its own: saving a product, with whatever price or discount, leaves the order
  lines as they are, and no sequence of requests changes or removes an order line that
  exists, it only appends.
\<close>

theorem order_line_price_frozen:
  "(binary64_rounding fl \<and> \<bar>p_price p\<bar> \<le> 2 ^ 40 \<and> 0 \<le> p_discount p \<and> p_discount p \<le> 100
      \<longrightarrow> order_price fl p
          = \<lceil>of_int (p_price p) - of_int (p_price p) * of_int (p_discount p) / (100::real)\<rceil>)
   \<and> (Address_get address_id s = Inr a \<and> Product_get (product_id product_obj) s = Inr p
        \<and> \<not> p_stock p < qty product_obj \<and> order_objs_wf s
      \<longrightarrow> order_objs (snd (OrderProduct_mutate fl (Some u) product_obj address_id s))
          = order_objs s @ [\<lparr>oo_order = o_id (fst (Order_create u a s)),
               oo_product = product_id product_obj, oo_qty = qty product_obj,
               oo_price = order_price fl p\<rparr>])
   \<and> (Address_get address_id s = Inr a
        \<and> fst (OrderCart_mutate fl (Some u) address_id s) = Inr order
        \<and> order_objs_wf s \<and> distinct (map c_product (cart_of u s))
      \<longrightarrow> order_objs (snd (OrderCart_mutate fl (Some u) address_id s))
            = order_objs s @ concat (map (order_line_of fl order s) (cart_of u s))
          \<and> (\<forall>c \<in> set (cart_of u s). \<exists>p'. Product_get (c_product c) s = Inr p'
                \<and> order_line_of fl order s c
                    = [\<lparr>oo_order = o_id order, oo_product = c_product c, oo_qty = c_qty c,
                        oo_price = order_price fl p'\<rparr>]))
   \<and> order_objs (product_save changed s) = order_objs s
   \<and> prefix (order_objs s) (order_objs (run fl reqs s))"
proof -
  have 1: "binary64_rounding fl \<and> \<bar>p_price p\<bar> \<le> 2 ^ 40 \<and> 0 \<le> p_discount p \<and> p_discount p \<le> 100
      \<longrightarrow> order_price fl p
          = \<lceil>of_int (p_price p) - of_int (p_price p) * of_int (p_discount p) / (100::real)\<rceil>"
    using order_price_exact [of fl p] by blast
  have 2: "Address_get address_id s = Inr a \<and> Product_get (product_id product_obj) s = Inr p
        \<and> \<not> p_stock p < qty product_obj \<and> order_objs_wf s
      \<longrightarrow> order_objs (snd (OrderProduct_mutate fl (Some u) product_obj address_id s))
          = order_objs s @ [\<lparr>oo_order = o_id (fst (Order_create u a s)),
               oo_product = product_id product_obj, oo_qty = qty product_obj,
               oo_price = order_price fl p\<rparr>]"
    using OrderProduct_order_line [of address_id s a product_obj p fl u] by blast
  have 3: "Address_get address_id s = Inr a
        \<and> fst (OrderCart_mutate fl (Some u) address_id s) = Inr order
        \<and> order_objs_wf s \<and> distinct (map c_product (cart_of u s))
      \<longrightarrow> order_objs (snd (OrderCart_mutate fl (Some u) address_id s))
            = order_objs s @ concat (map (order_line_of fl order s) (cart_of u s))
          \<and> (\<forall>c \<in> set (cart_of u s). \<exists>p'. Product_get (c_product c) s = Inr p'
                \<and> order_line_of fl order s c
                    = [\<lparr>oo_order = o_id order, oo_product = c_product c, oo_qty = c_qty c,
                        oo_price = order_price fl p'\<rparr>])"
    using OrderCart_success_order_lines [of address_id s a fl u order] by blast
  have 4: "order_objs (product_save changed s) = order_objs s" by simp
  have 5: "prefix (order_objs s) (order_objs (run fl reqs s))" by (rule prefix_run)
  from 1 2 3 4 5 show ?thesis by blast
qed


theorem order_line_price_frozen_witness:
  "order_price (\<lambda>x. x) \<lparr>p_id = 2, p_name = ''Blue Hat'', p_kind = ''hat'', p_price = 99,
       p_discount = 15, p_stock = 1\<rparr> = 85
   \<and> order_objs (snd (OrderProduct_mutate (\<lambda>x. x) (Some 1) \<lparr>product_id = 2, qty = 1\<rparr> 1
        shop_example))
     = [\<lparr>oo_order = 1, oo_product = 2, oo_qty = 1, oo_price = 85\<rparr>]
   \<and> order_objs (snd (OrderCart_mutate (\<lambda>x. x) (Some 1) 1 small_cart_example))
     = [\<lparr>oo_order = 1, oo_product = 1, oo_qty = 2, oo_price = 90\<rparr>]
   \<and> prefix (order_objs shop_after_refusal)
        (order_objs (run (\<lambda>x. x) [OrderProductReq (Some 1) \<lparr>product_id = 2, qty = 1\<rparr> 1]
           shop_after_refusal))"
proof -
  let ?a = "\<lparr>a_id = 1, a_user = 1, a_name = ''A'', a_phone = ''1'', a_address1 = ''x'',
          a_address2 = ''y'', a_pincode = 1, a_city = ''c'', a_state = ''s'', a_country = ''n''\<rparr>"
  let ?o = "\<lparr>o_id = 1, o_user = 1, o_name = ''A'', o_phone = ''1'', o_address1 = ''x'',
            o_address2 = ''y'', o_pincode = 1, o_city = ''c'', o_state = ''s'', o_country = ''n''\<rparr>"
  let ?p1 = "\<lparr>p_id = 1, p_name = ''Red Shoe'', p_kind = ''shoe'', p_price = 100, p_discount = 10,
            p_stock = 5\<rparr>"
  let ?p2 = "\<lparr>p_id = 2, p_name = ''Blue Hat'', p_kind = ''hat'', p_price = 99, p_discount = 15,
            p_stock = 1\<rparr>"
  let ?in = "\<lparr>product_id = 2, qty = 1\<rparr>"
  let ?reqs = "[OrderProductReq (Some 1) ?in 1]"
  have fl: "binary64_rounding (\<lambda>x. x)" by (rule binary64_rounding_id)
  have b: "\<bar>p_price ?p2\<bar> \<le> 2 ^ 40" "0 \<le> p_discount ?p2" "p_discount ?p2 \<le> 100" by simp_all
  have h1: "Address_get 1 shop_example = Inr ?a" "Address_get 1 small_cart_example = Inr ?a"
    by (simp_all add: Address_get_def shop_example_def small_cart_example_def)
  have h2: "Product_get (product_id ?in) shop_example = Inr ?p2"
    by (simp add: Product_get_def shop_example_def)
  have h3: "\<not> p_stock ?p2 < qty ?in" by simp
  have h4: "order_objs_wf shop_example" "order_objs_wf small_cart_example"
    by (simp_all add: order_objs_wf_def shop_example_def small_cart_example_def)
  have h5: "fst (OrderCart_mutate (\<lambda>x. x) (Some 1) 1 small_cart_example) = Inr ?o"
    by (simp add: small_cart_example_def shop_example_def OrderCart_mutate_def
        login_required_def OrderCart_body_def Address_get_def Order_create_def next_order_id_def
        cart_of_def Product_get_def commit_line_def product_save_def product_objects_add_def
        order_price_def cart_obj_delete_def Let_def)
  have h6: "distinct (map c_product (cart_of 1 small_cart_example))"
    by (simp add: cart_of_def small_cart_example_def shop_example_def)
  have h7: "order_objs small_cart_example = []" "order_objs shop_example = []"
    by (simp_all add: small_cart_example_def shop_example_def)
  have h8: "concat (map (order_line_of (\<lambda>x. x) ?o small_cart_example) (cart_of 1 small_cart_example))
      = [\<lparr>oo_order = 1, oo_product = 1, oo_qty = 2, oo_price = 90\<rparr>]"
    by (simp add: order_line_of_def Product_get_def cart_of_def small_cart_example_def
        shop_example_def order_price_def)
  have h9: "o_id (fst (Order_create 1 ?a shop_example)) = 1"
    by (simp add: Order_create_def next_order_id_def shop_example_def Let_def)
  have c85: "\<lceil>of_int (p_price ?p2) - of_int (p_price ?p2) * of_int (p_discount ?p2) / (100::real)\<rceil> = 85"
    by (simp add: ceiling_eq_iff)
  have 1: "order_price (\<lambda>x. x) ?p2 = 85"
    using order_line_price_frozen [where fl = "\<lambda>x. x" and p = ?p2 and address_id = 1
      and a = ?a and product_obj = ?in and u = 1 and order = ?o and changed = ?p1 and reqs = ?reqs
      and s = shop_example] fl b unfolding c85 by blast
  have "order_objs (snd (OrderProduct_mutate (\<lambda>x. x) (Some 1) ?in 1 shop_example))
     = order_objs shop_example @ [\<lparr>oo_order = o_id (fst (Order_create 1 ?a shop_example)),
               oo_product = product_id ?in, oo_qty = qty ?in,
               oo_price = order_price (\<lambda>x. x) ?p2\<rparr>]"
    using order_line_price_frozen [where fl = "\<lambda>x. x" and p = ?p2 and address_id = 1
      and a = ?a and product_obj = ?in and u = 1 and order = ?o and changed = ?p1 and reqs = ?reqs
      and s = shop_example] h1 h2 h3 h4 by blast
  then have 2: "order_objs (snd (OrderProduct_mutate (\<lambda>x. x) (Some 1) ?in 1 shop_example))
     = [\<lparr>oo_order = 1, oo_product = 2, oo_qty = 1, oo_price = 85\<rparr>]"
    unfolding h7 h9 1 by simp
  have "order_objs (snd (OrderCart_mutate (\<lambda>x. x) (Some 1) 1 small_cart_example))
     = order_objs small_cart_example
       @ concat (map (order_line_of (\<lambda>x. x) ?o small_cart_example) (cart_of 1 small_cart_example))"
    using order_line_price_frozen [where fl = "\<lambda>x. x" and p = ?p2 and address_id = 1
      and a = ?a and product_obj = ?in and u = 1 and order = ?o and changed = ?p1 and reqs = ?reqs
      and s = small_cart_example] h1 h4 h5 h6 by blast
  then have 3: "order_objs (snd (OrderCart_mutate (\<lambda>x. x) (Some 1) 1 small_cart_example))
     = [\<lparr>oo_order = 1, oo_product = 1, oo_qty = 2, oo_price = 90\<rparr>]"
    unfolding h7 h8 by simp
  have 4: "prefix (order_objs shop_after_refusal)
        (order_objs (run (\<lambda>x. x) ?reqs shop_after_refusal))"
    using order_line_price_frozen [where fl = "\<lambda>x. x" and p = ?p2 and address_id = 1
      and a = ?a and product_obj = ?in and u = 1 and order = ?o and changed = ?p1 and reqs = ?reqs
      and s = shop_after_refusal] by blast
  from 1 2 3 4 show ?thesis by blast
qed

subsection \<open>States that requests reach\<close>

lemma order_objs_wf_cong:
  "orders s' = orders s \<Longrightarrow> order_objs s' = order_objs s \<Longrightarrow> order_objs_wf s \<Longrightarrow> order_objs_wf s'"
  by (simp add: order_objs_wf_def)

lemma order_objs_wf_add:
  "order_objs_wf s \<Longrightarrow> oid \<in> set (map o_id (orders s)) \<Longrightarrow>
   order_objs_wf (product_objects_add oid pid q pr s)"
  by (simp add: order_objs_wf_def product_objects_add_def)

lemma order_objs_wf_Order_create:
  "order_objs_wf s \<Longrightarrow> order_objs_wf (snd (Order_create u a s))
     \<and> o_id (fst (Order_create u a s)) \<in> set (map o_id (orders (snd (Order_create u a s))))"
  by (auto simp add: order_objs_wf_def Order_create_def Let_def list_all_iff)

lemma order_objs_wf_commit_line:
  assumes "order_objs_wf s" "o_id order \<in> set (map o_id (orders s))"
  shows "order_objs_wf (commit_line fl order c product s)"
proof -
  let ?p = "product\<lparr>p_stock := p_stock product - c_qty c\<rparr>"
  have "order_objs_wf (product_save ?p s)"
    using _ _ assms(1) by (rule order_objs_wf_cong) simp_all
  then have "order_objs_wf (product_objects_add (o_id order) (p_id ?p) (c_qty c)
      (order_price fl ?p) (product_save ?p s))"
    using assms(2) by (intro order_objs_wf_add) simp_all
  then show ?thesis
    unfolding commit_line_def Let_def
    by (rule order_objs_wf_cong [rotated -1]) simp_all
qed

lemma order_objs_wf_loop:
  "OrderCart_loop fl order cs s = (r, s') \<Longrightarrow> order_objs_wf s \<Longrightarrow>
   o_id order \<in> set (map o_id (orders s)) \<Longrightarrow> order_objs_wf s'"
proof (induction cs arbitrary: s)
  case Nil
  then show ?case by simp
next
  case (Cons c cs)
  show ?case
  proof (cases "Product_get (c_product c) s")
    case (Inl e)
    with Cons.prems show ?thesis by simp
  next
    case (Inr product)
    show ?thesis
    proof (cases "p_stock product < c_qty c")
      case True
      with Inr Cons.prems show ?thesis by simp
    next
      case False
      with Inr Cons.prems
      have l: "OrderCart_loop fl order cs (commit_line fl order c product s) = (r, s')" by simp
      have "order_objs_wf (commit_line fl order c product s)"
        using Cons.prems(2,3) by (rule order_objs_wf_commit_line)
      moreover have "o_id order \<in> set (map o_id (orders (commit_line fl order c product s)))"
        using Cons.prems(3) by simp
      ultimately show ?thesis using Cons.IH [OF l] by blast
    qed
  qed
qed

lemma order_objs_wf_OrderCart:
  assumes "order_objs_wf s"
  shows "order_objs_wf (snd (OrderCart_mutate fl ctx address_id s))"
proof (cases ctx)
  case None
  then show ?thesis using assms by (simp add: OrderCart_mutate_def login_required_def)
next
  case (Some u)
  show ?thesis
  proof (cases "Address_get address_id s")
    case (Inl e)
    then show ?thesis using Some assms
      by (simp add: OrderCart_mutate_def login_required_def OrderCart_body_def)
  next
    case (Inr a)
    obtain r s2 where l: "OrderCart_loop fl (fst (Order_create u a s)) (cart_of u s)
        (snd (Order_create u a s)) = (r, s2)"
      by (cases "OrderCart_loop fl (fst (Order_create u a s)) (cart_of u s) (snd (Order_create u a s))")
    from order_objs_wf_Order_create [OF assms, of u a]
    have w2: "order_objs_wf s2" using order_objs_wf_loop [OF l] by blast
    show ?thesis
    proof (cases r)
      case None
      have "order_objs_wf (order_mails (fst (Order_create u a s)) u s2)"
        using _ _ w2 by (rule order_objs_wf_cong) simp_all
      then show ?thesis using Some l None by (simp add: OrderCart_body_unfold [OF Inr])
    next
      case (Some e)
      then show ?thesis using \<open>ctx = Some u\<close> l w2 by (simp add: OrderCart_body_unfold [OF Inr])
    qed
  qed
qed

lemma order_objs_wf_OrderProduct:
  assumes "order_objs_wf s"
  shows "order_objs_wf (snd (OrderProduct_mutate fl ctx product_obj address_id s))"
proof (cases ctx)
  case None
  then show ?thesis using assms by (simp add: OrderProduct_mutate_def login_required_def)
next
  case (Some u)
  show ?thesis
  proof (cases "Address_get address_id s")
    case (Inl e)
    then show ?thesis using Some assms
      by (simp add: OrderProduct_mutate_def login_required_def OrderProduct_body_def)
  next
    case (Inr a)
    let ?s1 = "snd (Order_create u a s)" and ?o = "fst (Order_create u a s)"
    from order_objs_wf_Order_create [OF assms, of u a]
    have w1: "order_objs_wf ?s1" and m: "o_id ?o \<in> set (map o_id (orders ?s1))" by blast+
    have oc: "Order_create u a s = (?o, ?s1)" by simp
    show ?thesis
    proof (cases "Product_get (product_id product_obj) ?s1")
      case (Inl e)
      then show ?thesis using Some Inr w1
        by (simp add: OrderProduct_mutate_def login_required_def OrderProduct_body_def
            case_prod_beta)
    next
      case g: (Inr product)
      show ?thesis
      proof (cases "p_stock product < qty product_obj")
        case True
        then show ?thesis using Some Inr g w1
          by (simp add: OrderProduct_mutate_def login_required_def OrderProduct_body_def
              case_prod_beta)
      next
        case False
        let ?p = "product\<lparr>p_stock := p_stock product - qty product_obj\<rparr>"
        have "order_objs_wf (product_save ?p ?s1)"
          using _ _ w1 by (rule order_objs_wf_cong) simp_all
        then have "order_objs_wf (product_objects_add (o_id ?o) (p_id ?p) (qty product_obj)
            (order_price fl ?p) (product_save ?p ?s1))"
          using m by (intro order_objs_wf_add) simp_all
        then have "order_objs_wf (order_mails ?o u (product_objects_add (o_id ?o) (p_id ?p)
            (qty product_obj) (order_price fl ?p) (product_save ?p ?s1)))"
          by (rule order_objs_wf_cong [rotated -1]) simp_all
        then show ?thesis using Some Inr g False
          by (simp add: OrderProduct_mutate_def login_required_def OrderProduct_body_def Let_def
              case_prod_beta)
      qed
    qed
  qed
qed

lemma orders_SetCart: "orders (snd (SetCart_mutate ctx cart_obj add s)) = orders s"
  by (cases ctx)
     (auto simp add: SetCart_mutate_def login_required_def SetCart_body_def Let_def cart_save_def
       cart_remove_def cart_add_def split: sum.splits error.splits if_splits)

lemma orders_BookAppointment: "orders (snd (BookAppointment_mutate ctx timestamp s)) = orders s"
  by (cases ctx)
     (simp_all add: BookAppointment_mutate_def login_required_def BookAppointment_body_def Let_def)

lemma order_objs_wf_exec: "order_objs_wf s \<Longrightarrow> order_objs_wf (exec fl r s)"
proof (cases r)
  case (SetCartReq x y z)
  assume "order_objs_wf s"
  then show ?thesis
    using order_objs_wf_cong [OF orders_SetCart [of x y z s] order_objs_SetCart [of x y z s]]
      SetCartReq by simp
next
  case (OrderCartReq x y)
  assume "order_objs_wf s"
  then show ?thesis using OrderCartReq by (simp add: order_objs_wf_OrderCart)
next
  case (OrderProductReq x y z)
  assume "order_objs_wf s"
  then show ?thesis using OrderProductReq by (simp add: order_objs_wf_OrderProduct)
next
  case (BookAppointmentReq x y)
  assume "order_objs_wf s"
  then show ?thesis
    using order_objs_wf_cong [OF orders_BookAppointment [of x y s]
        order_objs_BookAppointment [of x y s]] BookAppointmentReq by simp
qed

lemma order_objs_wf_run: "order_objs_wf s \<Longrightarrow> order_objs_wf (run fl reqs s)"
  unfolding run_def by (induction reqs arbitrary: s) (simp_all add: order_objs_wf_exec)


lemma cart_unique_cong: "cart s' = cart s \<Longrightarrow> cart_unique s \<Longrightarrow> cart_unique s'"
  by (simp add: cart_unique_def)

lemma cart_unique_distinct_products:
  assumes "cart_unique s"
  shows "distinct (map c_product (cart_of u s))"
proof -
  have "distinct (map (\<lambda>c. (c_user c, c_product c)) (filter (\<lambda>c. c_user c = u) (cart s)))"
    using assms unfolding cart_unique_def by (rule distinct_map_filter)
  moreover have "inj_on (\<lambda>c. (c_user c, c_product c)) (set (filter (\<lambda>c. c_user c = u) (cart s)))
      \<Longrightarrow> inj_on c_product (set (filter (\<lambda>c. c_user c = u) (cart s)))"
    by (auto simp: inj_on_def)
  ultimately show ?thesis
    unfolding cart_of_def by (auto simp: distinct_map inj_on_def)
qed

lemma map_key_save:
  "c_user c = u \<Longrightarrow> c_product c = pid \<Longrightarrow>
   map (\<lambda>c. (c_user c, c_product c))
      (map (\<lambda>r. if c_user r = u \<and> c_product r = pid then c\<lparr>c_qty := x\<rparr> else r) xs)
     = map (\<lambda>c. (c_user c, c_product c)) xs"
  by (induction xs) auto

lemma cart_unique_save:
  assumes "c_user c = u" "c_product c = pid" "cart_unique s"
  shows "cart_unique (cart_save (c\<lparr>c_qty := x\<rparr>) s)"
proof -
  have "cart (cart_save (c\<lparr>c_qty := x\<rparr>) s)
      = map (\<lambda>r. if c_user r = u \<and> c_product r = pid then c\<lparr>c_qty := x\<rparr> else r) (cart s)"
    using assms(1,2) by (simp add: cart_save_def)
  then have "map (\<lambda>c. (c_user c, c_product c)) (cart (cart_save (c\<lparr>c_qty := x\<rparr>) s))
      = map (\<lambda>c. (c_user c, c_product c)) (cart s)"
    using map_key_save [OF assms(1,2)] by (simp only:)
  then show ?thesis using assms(3) by (simp only: cart_unique_def)
qed

lemma cart_unique_remove: "cart_unique s \<Longrightarrow> cart_unique (cart_remove u pid s)"
  by (simp add: cart_unique_def cart_remove_def distinct_map_filter)

lemma cart_unique_add:
  "cart_unique s \<Longrightarrow> cart_add u pid q s = Inr s' \<Longrightarrow> cart_unique s'"
  by (auto simp add: cart_unique_def cart_add_def cart_lines_def filter_empty_conv
      split: if_splits)

lemma cart_unique_SetCart:
  assumes "cart_unique s"
  shows "cart_unique (snd (SetCart_mutate ctx cart_obj add s))"
proof (cases ctx)
  case None
  then show ?thesis using assms by (simp add: SetCart_mutate_def login_required_def)
next
  case (Some u)
  show ?thesis
  proof (cases "CartObj_get u (product_id cart_obj) s")
    case (Inr c)
    then have "cart_lines u (product_id cart_obj) s = [c]"
      by (auto simp: CartObj_get_def split: list.splits)
    then have "c_user c = u \<and> c_product c = product_id cart_obj" by (rule cart_lines_member)
    then show ?thesis
      using Some Inr assms
      by (simp add: SetCart_mutate_def login_required_def SetCart_body_def Let_def
          cart_unique_save cart_unique_remove)
  next
    case (Inl e)
    then show ?thesis
      using Some assms
      by (auto simp add: SetCart_mutate_def login_required_def SetCart_body_def Let_def
          split: error.splits sum.splits dest: cart_unique_add)
  qed
qed

lemma distinct_map_remove1: "distinct (map f xs) \<Longrightarrow> distinct (map f (remove1 x xs))"
  by (induction xs) (auto dest: notin_set_remove1 [rotated] simp: image_iff)

lemma cart_unique_commit_line:
  "cart_unique s \<Longrightarrow> cart_unique (commit_line fl order c product s)"
  by (simp add: cart_unique_def commit_line_def Let_def cart_obj_delete_def distinct_map_remove1)


lemma cart_unique_loop:
  "OrderCart_loop fl order cs s = (r, s') \<Longrightarrow> cart_unique s \<Longrightarrow> cart_unique s'"
proof (induction cs arbitrary: s)
  case Nil
  then show ?case by simp
next
  case (Cons c cs)
  show ?case
  proof (cases "Product_get (c_product c) s")
    case (Inl e)
    with Cons.prems show ?thesis by simp
  next
    case (Inr product)
    show ?thesis
    proof (cases "p_stock product < c_qty c")
      case True
      with Inr Cons.prems show ?thesis by simp
    next
      case False
      with Inr Cons.prems
      have l: "OrderCart_loop fl order cs (commit_line fl order c product s) = (r, s')" by simp
      from Cons.prems(2) have "cart_unique (commit_line fl order c product s)"
        by (rule cart_unique_commit_line)
      with Cons.IH [OF l] show ?thesis by blast
    qed
  qed
qed

lemma cart_unique_OrderCart:
  assumes "cart_unique s"
  shows "cart_unique (snd (OrderCart_mutate fl ctx address_id s))"
proof (cases ctx)
  case None
  then show ?thesis using assms by (simp add: OrderCart_mutate_def login_required_def)
next
  case (Some u)
  show ?thesis
  proof (cases "Address_get address_id s")
    case (Inl e)
    then show ?thesis using Some assms
      by (simp add: OrderCart_mutate_def login_required_def OrderCart_body_def)
  next
    case (Inr a)
    obtain r s2 where l: "OrderCart_loop fl (fst (Order_create u a s)) (cart_of u s)
        (snd (Order_create u a s)) = (r, s2)"
      by (cases "OrderCart_loop fl (fst (Order_create u a s)) (cart_of u s) (snd (Order_create u a s))")
    have "cart_unique (snd (Order_create u a s))"
      using _ assms by (rule cart_unique_cong) simp
    with l have w2: "cart_unique s2" by (rule cart_unique_loop)
    then have "cart_unique (order_mails (fst (Order_create u a s)) u s2)"
      by (rule cart_unique_cong [rotated]) simp
    with w2 show ?thesis
      using Some l by (cases r) (simp_all add: OrderCart_body_unfold [OF Inr])
  qed
qed

lemma cart_OrderProduct:
  "cart (snd (OrderProduct_mutate fl ctx product_obj address_id s)) = cart s"
  by (simp add: OrderProduct_mutate_def login_required_def OrderProduct_body_def Let_def
      Order_create_def split: option.splits sum.splits)

lemma cart_BookAppointment: "cart (snd (BookAppointment_mutate ctx timestamp s)) = cart s"
  by (cases ctx)
     (simp_all add: BookAppointment_mutate_def login_required_def BookAppointment_body_def Let_def)

lemma cart_unique_exec: "cart_unique s \<Longrightarrow> cart_unique (exec fl r s)"
proof (cases r)
  case (SetCartReq x y z)
  assume "cart_unique s"
  then show ?thesis using SetCartReq by (simp add: cart_unique_SetCart)
next
  case (OrderCartReq x y)
  assume "cart_unique s"
  then show ?thesis using OrderCartReq by (simp add: cart_unique_OrderCart)
next
  case (OrderProductReq x y z)
  assume "cart_unique s"
  then show ?thesis
    using cart_unique_cong [OF cart_OrderProduct [of fl x y z s]] OrderProductReq by simp
next
  case (BookAppointmentReq x y)
  assume "cart_unique s"
  then show ?thesis
    using cart_unique_cong [OF cart_BookAppointment [of x y s]] BookAppointmentReq by simp
qed

lemma cart_unique_run: "cart_unique s \<Longrightarrow> cart_unique (run fl reqs s)"
  unfolding run_def by (induction reqs arbitrary: s) (simp_all add: cart_unique_exec)

text \<open>
  The two conditions the theorems on order lines ask of the state hold in every state
  that requests reach from a database without order lines and with an empty cart.
\<close>

lemma order_lines_conditions_reachable:
  assumes "order_objs s0 = []" "cart s0 = []"
  shows "order_objs_wf (run fl reqs s0)"
    and "distinct (map c_product (cart_of u (run fl reqs s0)))"
proof -
  have "order_objs_wf s0" using assms(1) by (simp add: order_objs_wf_def)
  then show "order_objs_wf (run fl reqs s0)" by (rule order_objs_wf_run)
  have "cart_unique s0" using assms(2) by (simp add: cart_unique_def)
  then have "cart_unique (run fl reqs s0)" by (rule cart_unique_run)
  then show "distinct (map c_product (cart_of u (run fl reqs s0)))"
    by (rule cart_unique_distinct_products)
qed

end
